theory Spec2Isabelle
  imports Complex_Main "HOL-Library.Multiset" "HOL-Library.AList"
    "HOL-Library.List_Lexorder" "HOL-Library.Char_ord"
begin

section \<open>Numbers and absent values\<close>

text \<open>
  The application stores every numeric field of a set either as a number or as
  \<open>null\<close>. A field is modelled as \<open>rat option\<close>: \<open>None\<close> is the absent value
  (\<open>null\<close>, or a property that is missing), \<open>Some r\<close> the number \<open>r\<close>. Numbers are
  rationals, which every finite double is. The formulas of a single set and of the
  duration are stated on the exact values; the sum over the sets of a workout is
  taken with the rounding of the host's binary64 arithmetic, defined with it below.
  \<open>NaN\<close> and the infinities, which no field of the data model holds, are not part
  of the model.
\<close>

type_synonym num = "rat option"

text \<open>The truth value of a field in a condition: \<open>null\<close> and \<open>0\<close> are falsy.\<close>

definition truthy :: "num \<Rightarrow> bool" where
  "truthy v = (case v of None \<Rightarrow> False | Some r \<Rightarrow> r \<noteq> 0)"

text \<open>The number an arithmetic operator reads from a field: \<open>null\<close> reads as \<open>0\<close>.\<close>

definition ToNumber :: "num \<Rightarrow> rat" where
  "ToNumber v = (case v of None \<Rightarrow> 0 | Some r \<Rightarrow> r)"

text \<open>\<open>a || b\<close> on fields: the left operand when it is truthy, the right one otherwise.\<close>

definition or_else :: "num \<Rightarrow> num \<Rightarrow> num" where
  "or_else a b = (if truthy a then a else b)"

section \<open>The data model\<close>

text \<open>
  A set of the \<open>sets\<close> array of a workout. The source's property \<open>set\<close> is
  \<open>set_no\<close> here and \<open>done\<close> is \<open>is_done\<close>.
\<close>

record wset =
  ex :: string
  set_no :: nat
  plannedReps :: num
  reps :: num
  load :: num
  rpe :: num
  restSec :: num
  is_done :: bool

section \<open>Metrics of the history and detail views\<close>

text \<open>
  \<open>s.reps && s.load ? s.reps * s.load : 0\<close>, the volume of one set
  (\<open>vol\<close> in \<open>showWorkoutDetail\<close>, the summand of both \<open>reduce\<close> calls), on the
  exact values of the fields.
\<close>

definition vol :: "wset \<Rightarrow> rat" where
  "vol s = (if truthy (reps s) \<and> truthy (load s)
            then ToNumber (reps s) * ToNumber (load s) else 0)"

text \<open>
  The host's numbers are binary64 doubles, and each arithmetic operation gives the
  double nearest to the exact result, the one with an even last bit when two are
  equally near. \<open>fl x\<close> is that double for a rational \<open>x\<close>: with \<open>2 ^ e\<close> the power of
  two at or below the magnitude of \<open>x\<close>, and \<open>e\<close> at least \<open>-1022\<close>, it is the nearest
  multiple of \<open>2 ^ (e - 52)\<close>. Results beyond the largest double, which the host turns
  into an infinity, are outside the model.
\<close>

function ilog2 :: "int \<Rightarrow> int" where
  "ilog2 n = (if n < 2 then 0 else ilog2 (n div 2) + 1)"
  by pat_completeness auto
termination
  by (relation "measure nat") auto

declare ilog2.simps [simp del]

text \<open>
  \<open>ilog2 n\<close> is the exponent of the power of two at or below an integer \<open>n\<close> from
  \<open>1\<close> on; \<open>below\<close> counts the doublings that take a magnitude under \<open>1\<close> up to \<open>1\<close>,
  at most 1022 of them.
\<close>

fun below :: "nat \<Rightarrow> rat \<Rightarrow> int" where
  "below 0 x = 0"
| "below (Suc n) x = (if 1 \<le> x then 0 else below n (2 * x) - 1)"

definition exponent :: "rat \<Rightarrow> int" where
  "exponent x = (if 1 \<le> x then ilog2 \<lfloor>x\<rfloor> else below 1022 x)"

definition two_pow :: "int \<Rightarrow> rat" where
  "two_pow e = (if 0 \<le> e then 2 ^ nat e else 1 / 2 ^ nat (- e))"

definition round_half_even :: "rat \<Rightarrow> int" where
  "round_half_even y =
     (let f = \<lfloor>y\<rfloor>; r = y - of_int f in
      if r < 1 / 2 then f else if 1 / 2 < r then f + 1
      else if even f then f else f + 1)"

definition fl :: "rat \<Rightarrow> rat" where
  "fl x = (if x = 0 then 0
           else (let q = two_pow (exponent \<bar>x\<bar> - 52)
                 in of_int (round_half_even (x / q)) * q))"

text \<open>
  \<open>s.reps && s.load ? s.reps * s.load : 0\<close> as the host computes it: the fields are
  read as doubles and the product is rounded. It is \<open>vol s\<close> where nothing is rounded.
\<close>

definition vol64 :: "wset \<Rightarrow> rat" where
  "vol64 s = (if truthy (reps s) \<and> truthy (load s)
              then fl (fl (ToNumber (reps s)) * fl (ToNumber (load s))) else 0)"

text \<open>
  \<open>sets.reduce((sum, s) => sum + (s.reps && s.load ? s.reps * s.load : 0), 0)\<close>:
  a left fold over the array, starting from \<open>0\<close>; every sum is rounded.
\<close>

definition volume :: "wset list \<Rightarrow> rat" where
  "volume ss = foldl (\<lambda>sum s. fl (sum + vol64 s)) 0 ss"

text \<open>
  One entry of \<open>e1rms\<close> in \<open>showWorkoutDetail\<close>: the estimated one-repetition
  maximum of a set, or \<open>null\<close>.
\<close>

definition e1rm :: "wset \<Rightarrow> num" where
  "e1rm s = (if truthy (reps s) \<and> truthy (load s)
             then Some (ToNumber (load s) * (1 + ToNumber (reps s) / 30)) else None)"

definition e1rms :: "wset list \<Rightarrow> num list" where
  "e1rms ss = map e1rm ss"


section \<open>Reading numbers from the inputs of a set row\<close>

text \<open>
  The input handlers of \<open>createSetRow\<close> read the text of an input with the host's
  \<open>parseInt\<close> and \<open>parseFloat\<close>. Both are modelled on ASCII strings, with \<open>None\<close>
  for \<open>NaN\<close>. Since numbers are finite rationals here, the literal \<open>Infinity\<close> that
  \<open>parseFloat\<close> accepts has no value in the model and reads as \<open>None\<close> too.
\<close>

definition isWhiteSpace :: "char \<Rightarrow> bool" where
  "isWhiteSpace c = (of_char c \<in> {9, 10, 11, 12, 13, 32 :: nat})"

definition isDigit :: "char \<Rightarrow> bool" where
  "isDigit c = (48 \<le> (of_char c :: nat) \<and> (of_char c :: nat) \<le> 57)"

definition isHexDigit :: "char \<Rightarrow> bool" where
  "isHexDigit c = (isDigit c \<or> (65 \<le> (of_char c :: nat) \<and> (of_char c :: nat) \<le> 70)
                   \<or> (97 \<le> (of_char c :: nat) \<and> (of_char c :: nat) \<le> 102))"

definition digitVal :: "char \<Rightarrow> nat" where
  "digitVal c = (let n = of_char c in
                 if n \<le> 57 then n - 48 else if n \<le> 70 then n - 55 else n - 87)"

definition digitsVal :: "nat \<Rightarrow> string \<Rightarrow> nat" where
  "digitsVal R z = foldl (\<lambda>n c. n * R + digitVal c) 0 z"

text \<open>The sign a numeric literal starts with, and the text after it.\<close>

definition signOf :: "string \<Rightarrow> rat \<times> string" where
  "signOf s = (case s of
       [] \<Rightarrow> (1, s)
     | c # r \<Rightarrow> if c = CHR ''-'' then (- 1, r) else if c = CHR ''+'' then (1, r) else (1, s))"

text \<open>
  \<open>parseInt(string)\<close> with no radix: leading white space is skipped, a sign is read,
  a prefix \<open>0x\<close> or \<open>0X\<close> selects radix 16, and the longest run of digits is the
  value; no digit gives \<open>NaN\<close>.
\<close>

definition parseInt :: "string \<Rightarrow> num" where
  "parseInt str =
     (let (sign, s1) = signOf (dropWhile isWhiteSpace str) in
      case s1 of
        a # b # r \<Rightarrow>
          if a = CHR ''0'' \<and> (b = CHR ''x'' \<or> b = CHR ''X'')
          then (let z = takeWhile isHexDigit r in
                if z = [] then None else Some (sign * of_nat (digitsVal 16 z)))
          else (let z = takeWhile isDigit s1 in
                if z = [] then None else Some (sign * of_nat (digitsVal 10 z)))
      | _ \<Rightarrow> (let z = takeWhile isDigit s1 in
              if z = [] then None else Some (sign * of_nat (digitsVal 10 z))))"

text \<open>
  The exponent part \<open>e\<close>, optional sign, digits at the head of a text: the power of
  ten it denotes, or \<open>1\<close> when the text does not start with a complete exponent part.
\<close>

definition exponentPart :: "string \<Rightarrow> rat" where
  "exponentPart s =
     (case s of
        [] \<Rightarrow> 1
      | c # r \<Rightarrow>
          if c = CHR ''e'' \<or> c = CHR ''E''
          then (case r of
                  [] \<Rightarrow> 1
                | d # r' \<Rightarrow>
                    if d = CHR ''-''
                    then (let z = takeWhile isDigit r' in
                          if z = [] then 1 else 1 / 10 ^ digitsVal 10 z)
                    else if d = CHR ''+''
                    then (let z = takeWhile isDigit r' in
                          if z = [] then 1 else 10 ^ digitsVal 10 z)
                    else (let z = takeWhile isDigit r in
                          if z = [] then 1 else 10 ^ digitsVal 10 z))
          else 1)"

text \<open>
  \<open>parseFloat(string)\<close>: leading white space is skipped and the longest prefix that
  is a decimal literal (sign, digits, fraction, exponent) is the value; a text with
  no such prefix gives \<open>NaN\<close>.
\<close>

definition parseFloat :: "string \<Rightarrow> num" where
  "parseFloat str =
     (let (sign, s1) = signOf (dropWhile isWhiteSpace str);
          intd = takeWhile isDigit s1;
          r1 = dropWhile isDigit s1;
          dot = (r1 \<noteq> [] \<and> hd r1 = CHR ''.'');
          fracd = (if dot then takeWhile isDigit (tl r1) else []);
          r2 = (if dot then dropWhile isDigit (tl r1) else r1)
      in if intd = [] \<and> fracd = [] then None
         else Some (sign * (of_nat (digitsVal 10 intd)
                            + of_nat (digitsVal 10 fracd) / 10 ^ length fracd)
                         * exponentPart r2))"

section \<open>The live session\<close>

datatype weight_unit = kg | lb

text \<open>
  A timestamp is the text \<open>new Date().toISOString()\<close> returns. It is modelled by
  the instant it denotes, in milliseconds since the epoch, which is what
  \<open>new Date(text)\<close> reads back from it. The text itself is \<open>toISOString\<close> below;
  for years of four digits, texts are ordered as their instants are.
\<close>

type_synonym timestamp = int

record workout =
  startedAt :: timestamp
  endedAt :: "timestamp option"
  notes_of :: string
  unit_of :: weight_unit
  sets :: "wset list"

record exercise =
  name :: string
  tags :: "string list"

text \<open>
  The application state: the exercises and workouts of the active profile
  (\<open>data.profiles[profileId]\<close>), both objects keyed by strings and kept here in
  insertion order, and \<open>currentSession\<close>, which is \<open>null\<close> when no session is live.
\<close>

record app =
  exercises :: "(string \<times> exercise) list"
  workouts :: "(timestamp \<times> workout) list"
  currentSession :: "workout option"

text \<open>
  How a handler ends: it returns, or it throws a \<open>TypeError\<close> (reading a property
  of \<open>null\<close>). Either way the state it leaves behind is kept: an uncaught exception
  in an event handler does not undo the assignments made before it.
\<close>

datatype 'a completion = Returned 'a | Threw 'a

definition state_after :: "'a completion \<Rightarrow> 'a" where
  "state_after c = (case c of Returned a \<Rightarrow> a | Threw a \<Rightarrow> a)"

definition startNewSession :: "timestamp \<Rightarrow> app \<Rightarrow> app" where
  "startNewSession now a =
     a\<lparr>currentSession := Some \<lparr>startedAt = now, endedAt = None, notes_of = [],
                                unit_of = kg, sets = []\<rparr>\<rparr>"

text \<open>
  \<open>last.f\<close> for \<open>last = exSets[exSets.length - 1] || {}\<close>: the field of the last
  set of the exercise, \<open>undefined\<close> when there is none.
\<close>

definition last_field :: "(wset \<Rightarrow> num) \<Rightarrow> wset list \<Rightarrow> num" where
  "last_field f exSets = (if exSets = [] then None else f (last exSets))"

definition newSet :: "string \<Rightarrow> wset list \<Rightarrow> wset" where
  "newSet exId exSets =
     \<lparr>ex = exId,
      set_no = length exSets + 1,
      plannedReps = or_else (last_field plannedReps exSets) None,
      reps = None,
      load = or_else (last_field load exSets) None,
      rpe = None,
      restSec = or_else (last_field restSec exSets) (Some 60),
      is_done = False\<rparr>"

text \<open>\<open>addSetToExercise\<close> on the session object: the new set is pushed at the end.\<close>

definition pushSet :: "string \<Rightarrow> workout \<Rightarrow> workout" where
  "pushSet exId sess =
     (let exSets = filter (\<lambda>s. ex s = exId) (sets sess)
      in sess\<lparr>sets := sets sess @ [newSet exId exSets]\<rparr>)"

definition addSetToExercise :: "string \<Rightarrow> app \<Rightarrow> app completion" where
  "addSetToExercise exId a =
     (case currentSession a of
        None \<Rightarrow> Threw a
      | Some sess \<Rightarrow> Returned (a\<lparr>currentSession := Some (pushSet exId sess)\<rparr>))"

text \<open>
  The exercise id \<open>exName.toLowerCase().replace(/\s+/g, '-')\<close>, on ASCII text: every
  maximal run of white space becomes one hyphen.
\<close>

definition toLowerCase :: "string \<Rightarrow> string" where
  "toLowerCase s =
     map (\<lambda>c. if 65 \<le> (of_char c :: nat) \<and> (of_char c :: nat) \<le> 90
               then char_of (of_char c + (32 :: nat)) else c) s"

function replace_spaces :: "string \<Rightarrow> string" where
  "replace_spaces [] = []"
| "replace_spaces (c # cs) =
     (if isWhiteSpace c then CHR ''-'' # replace_spaces (dropWhile isWhiteSpace cs)
      else c # replace_spaces cs)"
  by pat_completeness auto
termination
  by (relation "measure length") (auto simp: length_dropWhile_le less_Suc_eq_le)

text \<open>
  \<open>addExerciseFlow\<close>. The argument is what \<open>prompt\<close> returned: \<open>None\<close> when the
  dialog was cancelled. An unknown exercise is added to the library first; then the
  first set is added. The library is looked up as a map: an id that names a property
  every object inherits, such as \<open>constructor\<close>, is outside the model.
\<close>

definition addExerciseFlow :: "string option \<Rightarrow> app \<Rightarrow> app completion" where
  "addExerciseFlow answer a =
     (case answer of
        None \<Rightarrow> Returned a
      | Some exName \<Rightarrow>
          if exName = [] then Returned a
          else (let exId = replace_spaces (toLowerCase exName);
                    a1 = (if map_of (exercises a) exId = None
                          then a\<lparr>exercises :=
                                   AList.update exId \<lparr>name = exName, tags = []\<rparr> (exercises a)\<rparr>
                          else a)
                in addSetToExercise exId a1))"

text \<open>The five input handlers of a set row: \<open>set.f = parse(input.value) || null\<close>.\<close>

datatype field = PlannedReps | Reps | Load | Rpe | RestSec

fun inputField :: "field \<Rightarrow> string \<Rightarrow> wset \<Rightarrow> wset" where
  "inputField PlannedReps v s = s\<lparr>plannedReps := or_else (parseInt v) None\<rparr>"
| "inputField Reps v s = s\<lparr>reps := or_else (parseInt v) None\<rparr>"
| "inputField Load v s = s\<lparr>load := or_else (parseFloat v) None\<rparr>"
| "inputField Rpe v s = s\<lparr>rpe := or_else (parseFloat v) None\<rparr>"
| "inputField RestSec v s = s\<lparr>restSec := or_else (parseInt v) None\<rparr>"

fun field_of :: "field \<Rightarrow> wset \<Rightarrow> num" where
  "field_of PlannedReps s = plannedReps s"
| "field_of Reps s = reps s"
| "field_of Load s = load s"
| "field_of Rpe s = rpe s"
| "field_of RestSec s = restSec s"

text \<open>The change handler of the checkbox of a set row: \<open>set.done = doneInput.checked\<close>.\<close>

definition changeDone :: "bool \<Rightarrow> wset \<Rightarrow> wset" where
  "changeDone checked s = s\<lparr>is_done := checked\<rparr>"

text \<open>
  \<open>startRestTimer\<close>: the delay in milliseconds of the timeout it sets, \<open>None\<close> when
  it returns at once because \<open>restSec\<close> is falsy. The timer does not touch the state.
\<close>

definition startRestTimer :: "wset \<Rightarrow> rat option" where
  "startRestTimer s = (if \<not> truthy (restSec s) then None else Some (ToNumber (restSec s) * 1000))"

text \<open>
  A handler of a set row works on the set object its row was built for: the set at
  position \<open>i\<close> of the live session. Rows exist only for sets of the live session,
  so nothing happens for any other position.
\<close>

definition onSet :: "nat \<Rightarrow> (wset \<Rightarrow> wset) \<Rightarrow> app \<Rightarrow> app" where
  "onSet i f a =
     (case currentSession a of
        None \<Rightarrow> a
      | Some sess \<Rightarrow>
          if i < length (sets sess)
          then a\<lparr>currentSession := Some (sess\<lparr>sets := (sets sess)[i := f (sets sess ! i)]\<rparr>)\<rparr>
          else a)"

text \<open>The change handler of the unit selector of the session view.\<close>

definition changeUnit :: "weight_unit \<Rightarrow> app \<Rightarrow> app" where
  "changeUnit u a =
     (case currentSession a of
        None \<Rightarrow> a
      | Some sess \<Rightarrow> a\<lparr>currentSession := Some (sess\<lparr>unit_of := u\<rparr>)\<rparr>)"

text \<open>
  \<open>finishSession\<close>: nothing without a live session; otherwise the session gets its
  end time and is stored under its start time, and no session is live afterwards.
  An assignment to a key the object already has replaces the value in place.
\<close>

definition finishSession :: "timestamp \<Rightarrow> app \<Rightarrow> app" where
  "finishSession now a =
     (case currentSession a of
        None \<Rightarrow> a
      | Some sess \<Rightarrow>
          (let done_sess = sess\<lparr>endedAt := Some now\<rparr>;
               id = startedAt done_sess
           in a\<lparr>workouts := AList.update id done_sess (workouts a), currentSession := None\<rparr>))"

text \<open>The click handler of the cancel button: \<open>currentSession = null\<close>.\<close>

definition cancelSession :: "app \<Rightarrow> app" where
  "cancelSession a = a\<lparr>currentSession := None\<rparr>"

text \<open>
  What the user can do while the application runs: the events of the session view
  and of the navigation that start, edit, finish or cancel a session. \<open>Start\<close> and
  \<open>Finish\<close> carry the time the clock shows when the handler runs.
\<close>

datatype event =
    Start timestamp
  | AddExercise "string option"
  | AddSet string
  | UpdateSetField nat field string
  | MarkDone nat bool
  | ChangeUnit weight_unit
  | Finish timestamp
  | Cancel

fun step :: "event \<Rightarrow> app \<Rightarrow> app" where
  "step (Start now) a = startNewSession now a"
| "step (AddExercise answer) a = state_after (addExerciseFlow answer a)"
| "step (AddSet exId) a = state_after (addSetToExercise exId a)"
| "step (UpdateSetField i f v) a = onSet i (inputField f v) a"
| "step (MarkDone i checked) a = onSet i (changeDone checked) a"
| "step (ChangeUnit u) a = changeUnit u a"
| "step (Finish now) a = finishSession now a"
| "step Cancel a = cancelSession a"

text \<open>The state after a sequence of events, the first event first.\<close>

definition run :: "event list \<Rightarrow> app \<Rightarrow> app" where
  "run es a = foldl (\<lambda>a e. step e a) a es"

text \<open>
  The state \<open>loadData\<close> leaves when nothing is stored: the active profile is
  \<open>{ exercises: {}, workouts: {} }\<close> and no session is live.
\<close>

definition empty_app :: app where
  "empty_app = \<lparr>exercises = [], workouts = [], currentSession = None\<rparr>"

definition is_finish :: "event \<Rightarrow> bool" where
  "is_finish e = (case e of Finish now \<Rightarrow> True | _ \<Rightarrow> False)"

text \<open>All sets the state holds: those of the stored workouts and of the live session.\<close>

definition all_sets :: "app \<Rightarrow> wset list" where
  "all_sets a =
     concat (map (\<lambda>kw. sets (snd kw)) (workouts a))
     @ (case currentSession a of None \<Rightarrow> [] | Some sess \<Rightarrow> sets sess)"

section \<open>The dashboard and the history\<close>

text \<open>
  \<open>Array.prototype.sort\<close> with a comparison function: a stable sort that puts \<open>x\<close>
  before \<open>y\<close> when \<open>cmp x y\<close> is negative. It is modelled as insertion sort from the
  right end of the array.
\<close>

fun insert_sorted :: "('a \<Rightarrow> 'a \<Rightarrow> int) \<Rightarrow> 'a \<Rightarrow> 'a list \<Rightarrow> 'a list" where
  "insert_sorted cmp x [] = [x]"
| "insert_sorted cmp x (y # ys) =
     (if cmp x y \<le> 0 then x # y # ys else y # insert_sorted cmp x ys)"

definition sort_with :: "('a \<Rightarrow> 'a \<Rightarrow> int) \<Rightarrow> 'a list \<Rightarrow> 'a list" where
  "sort_with cmp xs = foldr (insert_sorted cmp) xs []"

text \<open>
  The comparison function of both views, \<open>(a, b) => new Date(b[0]) - new Date(a[0])\<close>,
  on the entries \<open>[key, workout]\<close> of the workouts.
\<close>

definition byDateDesc :: "timestamp \<times> workout \<Rightarrow> timestamp \<times> workout \<Rightarrow> int" where
  "byDateDesc a b = fst b - fst a"

text \<open>The rows of the history view: all entries, sorted.\<close>

definition historyWorkouts :: "app \<Rightarrow> (timestamp \<times> workout) list" where
  "historyWorkouts a = sort_with byDateDesc (workouts a)"

text \<open>The recent workouts of the dashboard: the sorted entries, \<open>.slice(0, 5)\<close>.\<close>

definition recentWorkouts :: "app \<Rightarrow> (timestamp \<times> workout) list" where
  "recentWorkouts a = take 5 (sort_with byDateDesc (workouts a))"

text \<open>
  The number that the text \<open>x.toFixed(1)\<close> denotes: the sign is set aside, and of the
  integers \<open>n\<close> with \<open>n / 10\<close> closest to the magnitude the larger one is taken.
  The argument is the exact quotient here. Where it lies midway between two tenths,
  the binary fraction the host computes for it may lie just below, and the host then
  prints the smaller of the two.
\<close>

definition toFixed1 :: "rat \<Rightarrow> rat" where
  "toFixed1 x = (if x < 0 then - (of_int \<lfloor>10 * (- x) + 1 / 2\<rfloor> / 10)
                 else of_int \<lfloor>10 * x + 1 / 2\<rfloor> / 10)"

text \<open>
  The duration both views show:
  \<open>w.endedAt ? ((new Date(w.endedAt) - new Date(w.startedAt)) / 60000).toFixed(1) : '-'\<close>.
  \<open>Dash\<close> is the text \<open>'-'\<close>; \<open>Minutes d\<close> is the text of \<open>toFixed\<close>, which denotes \<open>d\<close>.
\<close>

datatype duration_text = Dash | Minutes rat

definition duration :: "workout \<Rightarrow> duration_text" where
  "duration w = (case endedAt w of
                   None \<Rightarrow> Dash
                 | Some e \<Rightarrow> Minutes (toFixed1 (of_int (e - startedAt w) / 60000)))"

section \<open>The text of a timestamp\<close>

text \<open>
  \<open>Date.prototype.toISOString\<close>, as ECMAScript defines it from the time value in
  milliseconds: the day number, the year as the largest year that starts on or before
  the day, the month and the date from the day within the year, the hour, minute,
  second and millisecond from the time within the day, each printed with a fixed
  number of digits. The names are those of the standard's abstract operations.
\<close>

definition msPerDay :: int where
  "msPerDay = 86400000"

definition Day :: "int \<Rightarrow> int" where
  "Day t = t div msPerDay"

definition DayFromYear :: "int \<Rightarrow> int" where
  "DayFromYear y = 365 * (y - 1970) + (y - 1969) div 4 - (y - 1901) div 100 + (y - 1601) div 400"

definition DaysInYear :: "int \<Rightarrow> int" where
  "DaysInYear y = (if y mod 4 \<noteq> 0 then 365 else if y mod 100 \<noteq> 0 then 366
                   else if y mod 400 \<noteq> 0 then 365 else 366)"

text \<open>A year has 365 or 366 days, so each year starts after the one before.\<close>

lemma div_succ:
  fixes x k :: int
  assumes "0 < k"
  shows "(x + 1) div k = x div k + (if (x + 1) mod k = 0 then 1 else 0)"
proof -
  define q where "q = x div k"
  define r where "r = x mod k"
  have x: "x = k * q + r" by (simp add: q_def r_def)
  have r: "0 \<le> r" "r < k" using assms by (simp_all add: r_def)
  show ?thesis
  proof (cases "r + 1 < k")
    case True
    have e: "x + 1 = k * q + (r + 1)" using x by simp
    have "(x + 1) div k = q" using e True r by (intro int_div_pos_eq [of _ _ _ "r + 1"]) simp_all
    moreover have "(x + 1) mod k = r + 1" using e True r by (intro int_mod_pos_eq [of _ _ q]) simp_all
    ultimately show ?thesis using r by (simp add: q_def)
  next
    case False
    with r have rk: "r + 1 = k" by simp
    have e: "x + 1 = k * (q + 1) + 0" using x rk by (simp add: algebra_simps)
    have "(x + 1) div k = q + 1" using e assms by (intro int_div_pos_eq [of _ _ _ 0]) simp_all
    moreover have "(x + 1) mod k = 0" using e assms by (intro int_mod_pos_eq [of _ _ "q + 1"]) simp_all
    ultimately show ?thesis by (simp add: q_def)
  qed
qed

lemma DayFromYear_Suc: "DayFromYear (y + 1) = DayFromYear y + DaysInYear y"
proof -
  have m4: "(y - 1968) mod 4 = y mod 4" using mod_diff_eq [of y 4 1968] by simp
  have m100: "(y - 1900) mod 100 = y mod 100" using mod_diff_eq [of y 100 1900] by simp
  have m400: "(y - 1600) mod 400 = y mod 400" using mod_diff_eq [of y 400 1600] by simp
  have a: "(y + 1 - 1969) div 4 = (y - 1969) div 4 + (if y mod 4 = 0 then 1 else 0)"
    using div_succ [of 4 "y - 1969"] m4 by (simp add: algebra_simps)
  have b: "(y + 1 - 1901) div 100 = (y - 1901) div 100 + (if y mod 100 = 0 then 1 else 0)"
    using div_succ [of 100 "y - 1901"] m100 by (simp add: algebra_simps)
  have c: "(y + 1 - 1601) div 400 = (y - 1601) div 400 + (if y mod 400 = 0 then 1 else 0)"
    using div_succ [of 400 "y - 1601"] m400 by (simp add: algebra_simps)
  have d: "y mod 4 = 0" if "y mod 100 = 0"
  proof -
    from that have "100 dvd y" by (simp add: dvd_eq_mod_eq_0)
    moreover have "(4 :: int) dvd 100" by simp
    ultimately have "4 dvd y" by (rule dvd_trans [rotated])
    then show ?thesis by (simp add: dvd_eq_mod_eq_0)
  qed
  have e: "y mod 100 = 0" if "y mod 400 = 0"
  proof -
    from that have "400 dvd y" by (simp add: dvd_eq_mod_eq_0)
    moreover have "(100 :: int) dvd 400" by simp
    ultimately have "100 dvd y" by (rule dvd_trans [rotated])
    then show ?thesis by (simp add: dvd_eq_mod_eq_0)
  qed
  show ?thesis
    unfolding DayFromYear_def DaysInYear_def a b c using d e by auto
qed

lemma DaysInYear_bounds: "365 \<le> DaysInYear y" "DaysInYear y \<le> 366"
  by (simp_all add: DaysInYear_def)

lemma DayFromYear_less: "DayFromYear y < DayFromYear (y + 1)"
  using DaysInYear_bounds(1) [of y] by (simp add: DayFromYear_Suc)

text \<open>
  The largest year that starts on or before day \<open>d\<close>, found by counting up from a
  year that does.
\<close>

function year_search :: "int \<Rightarrow> int \<Rightarrow> int" where
  "year_search d y = (if DayFromYear (y + 1) \<le> d then year_search d (y + 1) else y)"
  by pat_completeness auto
termination
proof (relation "measure (\<lambda>(d, y). nat (d - DayFromYear (y + 1) + 1))")
  show "wf (measure (\<lambda>(d, y). nat (d - DayFromYear (y + 1) + 1)))" by simp
next
  fix d y :: int
  assume "DayFromYear (y + 1) \<le> d"
  moreover have "DayFromYear (y + 1) < DayFromYear (y + 1 + 1)" by (rule DayFromYear_less)
  ultimately show "((d, y + 1), (d, y)) \<in> measure (\<lambda>(d, y). nat (d - DayFromYear (y + 1) + 1))"
    by simp
qed

declare year_search.simps [simp del]

definition YearFromDay :: "int \<Rightarrow> int" where
  "YearFromDay d = year_search d (1970 + (if 0 \<le> d then d div 366 else d div 365))"

definition YearFromTime :: "int \<Rightarrow> int" where
  "YearFromTime t = YearFromDay (Day t)"

definition DayWithinYear :: "int \<Rightarrow> int" where
  "DayWithinYear t = Day t - DayFromYear (YearFromTime t)"

definition InLeapYear :: "int \<Rightarrow> int" where
  "InLeapYear y = (if DaysInYear y = 366 then 1 else 0)"

definition MonthFromDay :: "int \<Rightarrow> int \<Rightarrow> int" where
  "MonthFromDay l d =
     (if d < 31 then 0 else if d < 59 + l then 1 else if d < 90 + l then 2
      else if d < 120 + l then 3 else if d < 151 + l then 4 else if d < 181 + l then 5
      else if d < 212 + l then 6 else if d < 243 + l then 7 else if d < 273 + l then 8
      else if d < 304 + l then 9 else if d < 334 + l then 10 else 11)"

definition DateFromDay :: "int \<Rightarrow> int \<Rightarrow> int" where
  "DateFromDay l d =
     (let m = MonthFromDay l d in
      if m = 0 then d + 1 else if m = 1 then d - 30 else if m = 2 then d - 58 - l
      else if m = 3 then d - 89 - l else if m = 4 then d - 119 - l
      else if m = 5 then d - 150 - l else if m = 6 then d - 180 - l
      else if m = 7 then d - 211 - l else if m = 8 then d - 242 - l
      else if m = 9 then d - 272 - l else if m = 10 then d - 303 - l else d - 333 - l)"

definition MonthFromTime :: "int \<Rightarrow> int" where
  "MonthFromTime t = MonthFromDay (InLeapYear (YearFromTime t)) (DayWithinYear t)"

definition DateFromTime :: "int \<Rightarrow> int" where
  "DateFromTime t = DateFromDay (InLeapYear (YearFromTime t)) (DayWithinYear t)"

definition HourFromTime :: "int \<Rightarrow> int" where
  "HourFromTime t = (t div 3600000) mod 24"

definition MinFromTime :: "int \<Rightarrow> int" where
  "MinFromTime t = (t div 60000) mod 60"

definition SecFromTime :: "int \<Rightarrow> int" where
  "SecFromTime t = (t div 1000) mod 60"

definition msFromTime :: "int \<Rightarrow> int" where
  "msFromTime t = t mod 1000"

text \<open>A number in \<open>k\<close> decimal digits, the most significant first.\<close>

definition digit_char :: "int \<Rightarrow> char" where
  "digit_char d = char_of (nat (48 + d))"

fun pad :: "nat \<Rightarrow> int \<Rightarrow> string" where
  "pad 0 n = []"
| "pad (Suc k) n = digit_char ((n div 10 ^ k) mod 10) # pad k n"

text \<open>
  Years from 0 to 9999 are printed in four digits, other years with a sign in six.
\<close>

definition year_text :: "int \<Rightarrow> string" where
  "year_text y = (if 0 \<le> y \<and> y \<le> 9999 then pad 4 y
                  else (if y < 0 then CHR ''-'' else CHR ''+'') # pad 6 \<bar>y\<bar>)"

definition date_text :: "int \<Rightarrow> string" where
  "date_text t =
     year_text (YearFromTime t) @ CHR ''-'' # pad 2 (MonthFromTime t + 1)
       @ CHR ''-'' # pad 2 (DateFromTime t)"

definition time_text :: "int \<Rightarrow> string" where
  "time_text t =
     CHR ''T'' # pad 2 (HourFromTime t) @ CHR '':'' # pad 2 (MinFromTime t)
       @ CHR '':'' # pad 2 (SecFromTime t) @ CHR ''.'' # pad 3 (msFromTime t) @ ''Z''"

definition toISOString :: "int \<Rightarrow> string" where
  "toISOString t = date_text t @ time_text t"

section \<open>Stored data and the import of a file\<close>

text \<open>
  What \<open>JSON.parse\<close> returns: \<open>null\<close>, a boolean, a number, a string, an array or an
  object with its properties in insertion order. An array also carries the named
  properties assigned to it, none after parsing.
\<close>

datatype jsval =
    JNull
  | JBool bool
  | JNum rat
  | JStr string
  | JArr "jsval list" "(string \<times> jsval) list"
  | JObj "(string \<times> jsval) list"

text \<open>
  The outcome of the host's \<open>JSON.parse\<close> on a text: it throws a \<open>SyntaxError\<close> or
  returns a value.
\<close>

datatype parse_result = SyntaxError | Parsed jsval

text \<open>
  What \<open>localStorage.getItem\<close> finds: nothing (\<open>null\<close>), or a text, given together
  with the outcome of \<open>JSON.parse\<close> on it.
\<close>

datatype item = NoItem | Item string parse_result

text \<open>The truth value of a value in a condition; \<open>None\<close> is \<open>undefined\<close>.\<close>

fun ToBoolean :: "jsval option \<Rightarrow> bool" where
  "ToBoolean None = False"
| "ToBoolean (Some JNull) = False"
| "ToBoolean (Some (JBool b)) = b"
| "ToBoolean (Some (JNum r)) = (r \<noteq> 0)"
| "ToBoolean (Some (JStr s)) = (s \<noteq> [])"
| "ToBoolean (Some (JArr xs ps)) = True"
| "ToBoolean (Some (JObj ps)) = True"

text \<open>
  Reading the property \<open>base[k]\<close>, for the names the program uses (\<open>profiles\<close>, the
  profile id, \<open>exercises\<close>, \<open>workouts\<close>), which are neither indices of an array nor
  properties every object inherits. Reading from \<open>undefined\<close> or \<open>null\<close> throws a
  \<open>TypeError\<close>; a boolean, a number and a string have no such property.
\<close>

datatype 'a evaluated = Val 'a | TypeError

fun prop_read :: "jsval option \<Rightarrow> string \<Rightarrow> jsval option evaluated" where
  "prop_read None k = TypeError"
| "prop_read (Some JNull) k = TypeError"
| "prop_read (Some (JObj ps)) k = Val (map_of ps k)"
| "prop_read (Some (JArr xs ps)) k = Val (map_of ps k)"
| "prop_read (Some (JBool b)) k = Val None"
| "prop_read (Some (JNum r)) k = Val None"
| "prop_read (Some (JStr s)) k = Val None"

text \<open>
  The assignment \<open>base[k] = v\<close> to a base that is not \<open>null\<close>: the base afterwards.
  The script is not in strict mode, so an assignment to a property of a boolean,
  a number or a string is ignored.
\<close>

fun prop_write :: "jsval \<Rightarrow> string \<Rightarrow> jsval \<Rightarrow> jsval" where
  "prop_write (JObj ps) k v = JObj (AList.update k v ps)"
| "prop_write (JArr xs ps) k v = JArr xs (AList.update k v ps)"
| "prop_write base k v = base"

definition profileId :: string where
  "profileId = ''me''"

text \<open>\<open>{ exercises: {}, workouts: {} }\<close> and \<open>{ profiles: {} }\<close>.\<close>

definition emptyProfile :: jsval where
  "emptyProfile = JObj [(''exercises'', JObj []), (''workouts'', JObj [])]"

definition emptyData :: jsval where
  "emptyData = JObj [(''profiles'', JObj [])]"

text \<open>
  \<open>loadData\<close>, from the stored item and the value of the global \<open>data\<close> (\<open>null\<close> when
  the script starts) to the value of \<open>data\<close> it leaves. It throws where
  \<open>data.profiles[profileId]\<close> reads a property of \<open>undefined\<close> or \<open>null\<close>.
\<close>

definition loadData :: "item \<Rightarrow> jsval \<Rightarrow> jsval completion" where
  "loadData stored data0 =
     (let data1 = (case stored of
                     NoItem \<Rightarrow> data0
                   | Item json parsed \<Rightarrow>
                       if json = [] then data0
                       else (case parsed of SyntaxError \<Rightarrow> data0 | Parsed v \<Rightarrow> v));
          data2 = (if \<not> ToBoolean (Some data1) then emptyData else data1)
      in case prop_read (Some data2) ''profiles'' of
           TypeError \<Rightarrow> Threw data2
         | Val profiles \<Rightarrow>
             (case prop_read profiles profileId of
                TypeError \<Rightarrow> Threw data2
              | Val p \<Rightarrow>
                  if \<not> ToBoolean p
                  then (case profiles of
                          None \<Rightarrow> Threw data2
                        | Some ps \<Rightarrow>
                            Returned (prop_write data2 ''profiles''
                                        (prop_write ps profileId emptyProfile)))
                  else Returned data2))"

text \<open>\<open>data.profiles[profileId]\<close>, the active profile.\<close>

definition activeProfile :: "jsval \<Rightarrow> jsval option evaluated" where
  "activeProfile d =
     (case prop_read (Some d) ''profiles'' of
        TypeError \<Rightarrow> TypeError
      | Val profiles \<Rightarrow> prop_read profiles profileId)"




text \<open>Invariants of the state, used in the proofs below.\<close>

definition keys_ok :: "app \<Rightarrow> bool" where
  "keys_ok a = (\<forall>kw \<in> set (workouts a). startedAt (snd kw) = fst kw)"

definition nonzero :: "wset \<Rightarrow> bool" where
  "nonzero s = (plannedReps s \<noteq> Some 0 \<and> reps s \<noteq> Some 0 \<and> load s \<noteq> Some 0 \<and>
                rpe s \<noteq> Some 0 \<and> restSec s \<noteq> Some 0)"

definition no_zero :: "app \<Rightarrow> bool" where
  "no_zero a = list_all nonzero (all_sets a)"

section \<open>Volume of a set\<close>




section \<open>Volume of a workout\<close>

lemma ilog2_bounds:
  "1 \<le> n \<Longrightarrow> 0 \<le> ilog2 n \<and> 2 ^ nat (ilog2 n) \<le> n \<and> n < 2 ^ nat (ilog2 n + 1)"
proof (induction n rule: ilog2.induct)
  case (1 n)
  show ?case
  proof (cases "n < 2")
    case True
    with 1(2) have "n = 1" by simp
    then show ?thesis by (simp add: ilog2.simps [of 1])
  next
    case False
    then have h: "1 \<le> n div 2" by simp
    from 1(1) [OF False h] have k: "0 \<le> ilog2 (n div 2)"
      and lo: "2 ^ nat (ilog2 (n div 2)) \<le> n div 2"
      and hi: "n div 2 < 2 ^ nat (ilog2 (n div 2) + 1)" by simp_all
    have e: "ilog2 n = ilog2 (n div 2) + 1" using False by (simp add: ilog2.simps [of n])
    have p: "(2 :: int) ^ nat (ilog2 (n div 2) + 1) = 2 * 2 ^ nat (ilog2 (n div 2))"
      using k by (simp add: nat_add_distrib)
    have p2: "(2 :: int) ^ nat (ilog2 (n div 2) + 1 + 1) = 2 * 2 ^ nat (ilog2 (n div 2) + 1)"
      using k by (simp add: nat_add_distrib)
    have "2 * (n div 2) \<le> n" "n < 2 * (n div 2) + 2" by simp_all
    with lo hi have "2 * 2 ^ nat (ilog2 (n div 2)) \<le> n" "n < 2 * 2 ^ nat (ilog2 (n div 2) + 1)"
      by linarith+
    with k show ?thesis unfolding e p p2 by simp
  qed
qed

lemma round_half_even_of_int: "round_half_even (of_int k) = k"
  by (simp add: round_half_even_def)

lemma fl_of_int:
  assumes "\<bar>m\<bar> \<le> 2 ^ 53"
  shows "fl (of_int m) = of_int m"
proof (cases "m = 0")
  case True
  then show ?thesis by (simp add: fl_def)
next
  case False
  define E where "E = ilog2 \<bar>m\<bar>"
  from False have m1: "1 \<le> \<bar>m\<bar>" by simp
  from ilog2_bounds [OF m1] have E0: "0 \<le> E" and lo: "2 ^ nat E \<le> \<bar>m\<bar>"
    by (simp_all add: E_def)
  have ex: "exponent \<bar>of_int m\<bar> = E"
    using m1 by (simp add: exponent_def E_def flip: of_int_abs)
  have E53: "E \<le> 53"
  proof (rule ccontr)
    assume "\<not> E \<le> 53"
    then have "54 \<le> nat E" by simp
    then have "(2 :: int) ^ 54 \<le> 2 ^ nat E" by (intro power_increasing) simp_all
    with lo assms show False by simp
  qed
  have "\<exists>k :: int. of_int m / two_pow (E - 52) = (of_int k :: rat)"
  proof (cases "E \<le> 52")
    case True
    have "two_pow (E - 52) = 1 / 2 ^ nat (52 - E)"
    proof (cases "E = 52")
      case True
      then show ?thesis by (simp add: two_pow_def)
    next
      case False
      with True show ?thesis by (simp add: two_pow_def)
    qed
    then have "of_int m / two_pow (E - 52) = (of_int (m * 2 ^ nat (52 - E)) :: rat)" by simp
    then show ?thesis by blast
  next
    case False
    with E53 have E: "E = 53" by simp
    with lo assms have "\<bar>m\<bar> = 2 ^ 53" by simp
    then have "m = 2 ^ 53 \<or> m = - (2 ^ 53)" by (simp add: abs_if split: if_splits)
    then have "m = 2 * (m div 2)" by (elim disjE) simp_all
    then have "(of_int m :: rat) = 2 * of_int (m div 2)" by (metis of_int_mult of_int_numeral)
    then have "of_int m / two_pow (E - 52) = (of_int (m div 2) :: rat)"
      using E by (simp add: two_pow_def)
    then show ?thesis by blast
  qed
  then obtain k :: int where k: "of_int m / two_pow (E - 52) = (of_int k :: rat)" by blast
  have q: "two_pow (E - 52) \<noteq> 0" by (simp add: two_pow_def)
  from k q have "(of_int k :: rat) * two_pow (E - 52) = of_int m" by (simp add: field_simps)
  with False k show ?thesis
    by (simp add: fl_def ex Let_def round_half_even_of_int)
qed

lemma fl_Ints: "x \<in> \<int> \<Longrightarrow> \<bar>x\<bar> \<le> 2 ^ 53 \<Longrightarrow> fl x = x"
proof -
  assume "x \<in> \<int>" and b: "\<bar>x\<bar> \<le> 2 ^ 53"
  then obtain m :: int where x: "x = of_int m" by (auto elim: Ints_cases)
  from b have "(of_int \<bar>m\<bar> :: rat) \<le> of_int (2 ^ 53)" unfolding x by simp
  then have "\<bar>m\<bar> \<le> 2 ^ 53" by (simp only: of_int_le_iff)
  then show ?thesis unfolding x by (rule fl_of_int)
qed

lemma fold_fl_exact:
  "\<forall>v \<in> set vs. v \<in> \<int> \<Longrightarrow> a \<in> \<int> \<Longrightarrow> \<bar>a\<bar> + sum_list (map abs vs) \<le> 2 ^ 53 \<Longrightarrow>
   foldl (\<lambda>sum v. fl (sum + v)) a vs = a + sum_list vs"
proof (induction vs arbitrary: a)
  case Nil
  show ?case by simp
next
  case (Cons v vs)
  have av: "a + v \<in> \<int>" using Cons.prems by simp
  have nn: "0 \<le> sum_list (map abs vs)" by (rule sum_list_nonneg) auto
  have b: "\<bar>a + v\<bar> \<le> \<bar>a\<bar> + \<bar>v\<bar>" by (rule abs_triangle_ineq)
  with Cons.prems(3) nn have "\<bar>a + v\<bar> \<le> 2 ^ 53" by simp
  with av have e: "fl (a + v) = a + v" by (rule fl_Ints)
  have "foldl (\<lambda>sum v. fl (sum + v)) (a + v) vs = a + v + sum_list vs"
    using Cons.prems b av by (intro Cons.IH) simp_all
  with e show ?case by simp
qed

lemma Ints_abs_ge_1:
  fixes x :: rat
  assumes "x \<in> \<int>" and "x \<noteq> 0"
  shows "1 \<le> \<bar>x\<bar>"
proof -
  from assms(1) obtain m :: int where x: "x = of_int m" by (auto elim: Ints_cases)
  with assms(2) have "1 \<le> \<bar>m\<bar>" by simp
  then have "(of_int (1 :: int) :: rat) \<le> of_int \<bar>m\<bar>" by (simp only: of_int_le_iff)
  then show ?thesis by (simp add: x)
qed

lemma vol64_exact:
  assumes "ToNumber (reps s) \<in> \<int>" and "ToNumber (load s) \<in> \<int>" and "\<bar>vol s\<bar> \<le> 2 ^ 53"
  shows "vol64 s = vol s"
proof (cases "truthy (reps s) \<and> truthy (load s)")
  case False
  then show ?thesis by (auto simp: vol64_def vol_def)
next
  case True
  define r where "r = ToNumber (reps s)"
  define l where "l = ToNumber (load s)"
  from True have nz: "r \<noteq> 0" "l \<noteq> 0"
    by (auto simp: r_def l_def truthy_def ToNumber_def split: option.splits)
  from assms(1,2) have i: "r \<in> \<int>" "l \<in> \<int>" by (simp_all add: r_def l_def)
  from True assms(3) have b: "\<bar>r\<bar> * \<bar>l\<bar> \<le> 2 ^ 53" by (simp add: vol_def r_def l_def abs_mult)
  have r1: "1 \<le> \<bar>r\<bar>" and l1: "1 \<le> \<bar>l\<bar>" using i nz by (simp_all add: Ints_abs_ge_1)
  have "\<bar>r\<bar> * 1 \<le> \<bar>r\<bar> * \<bar>l\<bar>" using l1 by (intro mult_left_mono) simp_all
  with b have "\<bar>r\<bar> \<le> 2 ^ 53" by simp
  with i have fr: "fl r = r" by (intro fl_Ints)
  have "1 * \<bar>l\<bar> \<le> \<bar>r\<bar> * \<bar>l\<bar>" using r1 by (intro mult_right_mono) simp_all
  with b have "\<bar>l\<bar> \<le> 2 ^ 53" by simp
  with i have fl': "fl l = l" by (intro fl_Ints)
  have "fl (r * l) = r * l" using i b by (intro fl_Ints) (simp_all add: abs_mult)
  with True fr fl' show ?thesis by (simp add: vol64_def vol_def r_def l_def)
qed

lemma vol_Ints:
  assumes "ToNumber (reps s) \<in> \<int>" and "ToNumber (load s) \<in> \<int>"
  shows "vol s \<in> \<int>"
  using assms by (simp add: vol_def)

lemma volume_exact:
  assumes i: "\<forall>s \<in> set ss. ToNumber (reps s) \<in> \<int> \<and> ToNumber (load s) \<in> \<int>"
    and b: "sum_list (map (\<lambda>s. \<bar>vol s\<bar>) ss) \<le> 2 ^ 53"
  shows "volume ss = sum_list (map vol ss)"
proof -
  have le: "\<bar>vol s\<bar> \<le> 2 ^ 53" if "s \<in> set ss" for s
  proof -
    have "\<bar>vol s\<bar> \<le> sum_list (map (\<lambda>s. \<bar>vol s\<bar>) ss)"
      using that by (intro member_le_sum_list) auto
    with b show ?thesis by simp
  qed
  have e: "map vol64 ss = map vol ss"
    using i le by (intro map_cong refl vol64_exact) auto
  have "volume ss = foldl (\<lambda>sum v. fl (sum + v)) 0 (map vol64 ss)"
    by (simp add: volume_def foldl_map)
  also have "\<dots> = 0 + sum_list (map vol ss)"
    unfolding e using i b by (intro fold_fl_exact) (auto simp: vol_Ints comp_def)
  finally show ?thesis by simp
qed


text \<open>
  C5, as the code has it. The volume of a workout is the sum of the volumes of its sets
  taken from left to right in doubles: it is \<open>0\<close> for no sets, and each further set
  adds its volume to the sum so far, rounded. When the repetitions and the load of
  every set are integers and the magnitudes of the set volumes add up to at most
  \<open>2 ^ 53\<close>, nothing is rounded: the volume is the exact sum of \<open>reps * load\<close>, and it
  is the same for every reordering of the sets.
\<close>

theorem volume_left_to_right:
  "volume [] = 0 \<and> volume (ss @ [s]) = fl (volume ss + vol64 s) \<and>
   ((\<forall>s' \<in> set ss. ToNumber (reps s') \<in> \<int> \<and> ToNumber (load s') \<in> \<int>) \<and>
    sum_list (map (\<lambda>s'. \<bar>vol s'\<bar>) ss) \<le> 2 ^ 53 \<longrightarrow>
      volume ss = sum_list (map vol ss) \<and>
      (\<forall>ss'. mset ss' = mset ss \<longrightarrow> volume ss' = volume ss))"
proof -
  have perm: "volume ss' = volume ss"
    if i: "\<forall>s' \<in> set ss. ToNumber (reps s') \<in> \<int> \<and> ToNumber (load s') \<in> \<int>"
      and b: "sum_list (map (\<lambda>s'. \<bar>vol s'\<bar>) ss) \<le> 2 ^ 53"
      and m: "mset ss' = mset ss" for ss'
  proof -
    have s: "sum_list (map f ss') = sum_list (map f ss)" for f :: "wset \<Rightarrow> rat"
    proof -
      have "sum_mset (image_mset f (mset ss')) = sum_mset (image_mset f (mset ss))"
        by (simp only: m)
      then show ?thesis by (simp flip: sum_mset_sum_list)
    qed
    from m have "set ss' = set ss" by (rule mset_eq_setD)
    with i have i': "\<forall>s' \<in> set ss'. ToNumber (reps s') \<in> \<int> \<and> ToNumber (load s') \<in> \<int>"
      by simp
    from b have b': "sum_list (map (\<lambda>s'. \<bar>vol s'\<bar>) ss') \<le> 2 ^ 53" by (simp only: s)
    from i' b' have "volume ss' = sum_list (map vol ss')" by (rule volume_exact)
    also have "\<dots> = sum_list (map vol ss)" by (rule s)
    also from i b have "\<dots> = volume ss" by (rule volume_exact [symmetric])
    finally show ?thesis .
  qed
  have n: "volume [] = 0" by (simp add: volume_def)
  have sn: "volume (ss @ [s]) = fl (volume ss + vol64 s)" by (simp add: volume_def)
  have ex: "(\<forall>s' \<in> set ss. ToNumber (reps s') \<in> \<int> \<and> ToNumber (load s') \<in> \<int>) \<and>
    sum_list (map (\<lambda>s'. \<bar>vol s'\<bar>) ss) \<le> 2 ^ 53 \<longrightarrow>
      volume ss = sum_list (map vol ss) \<and>
      (\<forall>ss'. mset ss' = mset ss \<longrightarrow> volume ss' = volume ss)"
  proof (intro impI conjI allI)
    assume h: "(\<forall>s' \<in> set ss. ToNumber (reps s') \<in> \<int> \<and> ToNumber (load s') \<in> \<int>) \<and>
      sum_list (map (\<lambda>s'. \<bar>vol s'\<bar>) ss) \<le> 2 ^ 53"
    then show "volume ss = sum_list (map vol ss)" by (intro volume_exact) simp_all
    fix ss'
    assume "mset ss' = mset ss"
    with h show "volume ss' = volume ss" by (intro perm) simp_all
  qed
  from n sn ex show ?thesis by (intro conjI)
qed

theorem volume_left_to_right_witness:
  "volume [\<lparr>ex = ''squat'', set_no = 1, plannedReps = Some 8, reps = Some 8,
             load = Some 80, rpe = None, restSec = Some 120, is_done = True\<rparr>,
           \<lparr>ex = ''row'', set_no = 1, plannedReps = None, reps = Some 10,
             load = Some 40, rpe = Some 7, restSec = Some 60, is_done = True\<rparr>] = 1040 \<and>
   volume [\<lparr>ex = ''row'', set_no = 1, plannedReps = None, reps = Some 10,
             load = Some 40, rpe = Some 7, restSec = Some 60, is_done = True\<rparr>,
           \<lparr>ex = ''squat'', set_no = 1, plannedReps = Some 8, reps = Some 8,
             load = Some 80, rpe = None, restSec = Some 120, is_done = True\<rparr>] = 1040"
proof -
  let ?a = "\<lparr>ex = ''squat'', set_no = 1, plannedReps = Some 8, reps = Some 8,
             load = Some 80, rpe = None, restSec = Some 120, is_done = True\<rparr>"
  let ?b = "\<lparr>ex = ''row'', set_no = 1, plannedReps = None, reps = Some 10,
             load = Some 40, rpe = Some 7, restSec = Some 60, is_done = True\<rparr>"
  have v: "vol ?a = 640" "vol ?b = 400" by (simp_all add: vol_def truthy_def ToNumber_def)
  have i: "\<forall>s' \<in> set [?a, ?b]. ToNumber (reps s') \<in> \<int> \<and> ToNumber (load s') \<in> \<int>"
    by (simp add: ToNumber_def)
  have b: "sum_list (map (\<lambda>s'. \<bar>vol s'\<bar>) [?a, ?b]) \<le> 2 ^ 53"
    by (simp add: vol_def truthy_def ToNumber_def)
  have m: "mset [?b, ?a] = mset [?a, ?b]" by simp
  note c5 = volume_left_to_right [of "[?a, ?b]" ?a, THEN conjunct2, THEN conjunct2, THEN mp,
      OF conjI [OF i b]]
  from c5 have "volume [?a, ?b] = sum_list (map vol [?a, ?b])" by (rule conjunct1)
  then have e: "volume [?a, ?b] = 1040" by (simp add: vol_def truthy_def ToNumber_def)
  from c5 have "\<forall>ss'. mset ss' = mset [?a, ?b] \<longrightarrow> volume ss' = volume [?a, ?b]"
    by (rule conjunct2)
  then have "volume [?b, ?a] = volume [?a, ?b]" using m by blast
  with e show ?thesis by simp
qed

text \<open>
  Three sets of nine repetitions at the loads 47.2, 56.8 and 94.85. Added in this
  order the volume is the double nearest to 1789.65; with the first set moved to the
  end it is smaller by one unit in the last place.
\<close>

theorem volume_reorder_counterexample:
  "volume [\<lparr>ex = ''press'', set_no = 1, plannedReps = None, reps = Some 9,
              load = Some (236 / 5), rpe = None, restSec = Some 60, is_done = True\<rparr>,
            \<lparr>ex = ''press'', set_no = 2, plannedReps = None, reps = Some 9,
              load = Some (284 / 5), rpe = None, restSec = Some 60, is_done = True\<rparr>,
            \<lparr>ex = ''press'', set_no = 3, plannedReps = None, reps = Some 9,
              load = Some (1897 / 20), rpe = None, restSec = Some 60, is_done = True\<rparr>]
   - volume [\<lparr>ex = ''press'', set_no = 2, plannedReps = None, reps = Some 9,
              load = Some (284 / 5), rpe = None, restSec = Some 60, is_done = True\<rparr>,
            \<lparr>ex = ''press'', set_no = 3, plannedReps = None, reps = Some 9,
              load = Some (1897 / 20), rpe = None, restSec = Some 60, is_done = True\<rparr>,
            \<lparr>ex = ''press'', set_no = 1, plannedReps = None, reps = Some 9,
              load = Some (236 / 5), rpe = None, restSec = Some 60, is_done = True\<rparr>]
   = 1 / 2 ^ 42"
  by code_simp

section \<open>Estimated one-repetition maximum\<close>

text \<open>
  C3, as the code has it. The estimate of a set is \<open>load * (1 + reps / 30)\<close> when
  \<open>reps\<close> and \<open>load\<close> are both present and not zero; it is \<open>null\<close> when either is
  absent or zero.
\<close>

theorem e1rm_present_nonzero:
  "(reps s = Some r \<and> load s = Some l \<and> r \<noteq> 0 \<and> l \<noteq> 0 \<longrightarrow>
      e1rm s = Some (l * (1 + r / 30))) \<and>
   (reps s = None \<or> load s = None \<or> reps s = Some 0 \<or> load s = Some 0 \<longrightarrow> e1rm s = None)"
  by (auto simp: e1rm_def truthy_def ToNumber_def)

theorem e1rm_present_nonzero_witness:
  "e1rm \<lparr>ex = ''squat'', set_no = 1, plannedReps = Some 8, reps = Some 8,
          load = Some 80, rpe = None, restSec = Some 120, is_done = True\<rparr>
     = Some (80 * (1 + 8 / 30)) \<and>
   e1rm \<lparr>ex = ''squat'', set_no = 2, plannedReps = Some 8, reps = None,
          load = Some 80, rpe = None, restSec = Some 120, is_done = False\<rparr> = None"
  using e1rm_present_nonzero [of "\<lparr>ex = ''squat'', set_no = 1, plannedReps = Some 8,
          reps = Some 8, load = Some 80, rpe = None, restSec = Some 120, is_done = True\<rparr>" 8 80]
    e1rm_present_nonzero [of "\<lparr>ex = ''squat'', set_no = 2, plannedReps = Some 8,
          reps = None, load = Some 80, rpe = None, restSec = Some 120, is_done = False\<rparr>" 0 0]
  by simp

text \<open>
  A set with five repetitions at load \<open>0\<close>: both fields are present and
  \<open>load * (1 + reps / 30)\<close> is \<open>0\<close>, but the estimate is \<open>null\<close>.
\<close>

theorem e1rm_zero_load_counterexample:
  "e1rm \<lparr>ex = ''plank'', set_no = 1, plannedReps = None, reps = Some 5,
          load = Some 0, rpe = None, restSec = Some 60, is_done = True\<rparr>
     \<noteq> Some (0 * (1 + 5 / 30)) \<and>
   e1rm \<lparr>ex = ''plank'', set_no = 1, plannedReps = None, reps = Some 5,
          load = Some 0, rpe = None, restSec = Some 60, is_done = True\<rparr> = None"
  by (simp add: e1rm_def truthy_def)

section \<open>Adding a set\<close>

text \<open>
  C2, as the code has it. \<open>addSetToExercise\<close> appends one set. Its number is the
  count of the sets of the exercise plus one, \<open>reps\<close> and \<open>rpe\<close> are absent and it is
  not done. \<open>plannedReps\<close> and \<open>load\<close> are those of the last set of the exercise when
  that set has a value other than zero there, and absent otherwise; \<open>restSec\<close> is that
  of the last set when it has a value other than zero, and \<open>60\<close> otherwise, also when
  the last set has no \<open>restSec\<close>.
\<close>

theorem addSet_default_fill:
  assumes "currentSession a = Some sess"
    and "prev = filter (\<lambda>s. ex s = exId) (sets sess)"
  shows "\<exists>n. addSetToExercise exId a
            = Returned (a\<lparr>currentSession := Some (sess\<lparr>sets := sets sess @ [n]\<rparr>)\<rparr>) \<and>
    ex n = exId \<and> set_no n = length prev + 1 \<and>
    reps n = None \<and> rpe n = None \<and> \<not> is_done n \<and>
    (prev = [] \<longrightarrow> plannedReps n = None \<and> load n = None \<and> restSec n = Some 60) \<and>
    (prev \<noteq> [] \<longrightarrow>
       plannedReps n = (if plannedReps (last prev) = Some 0 then None else plannedReps (last prev)) \<and>
       load n = (if load (last prev) = Some 0 then None else load (last prev)) \<and>
       restSec n = (if restSec (last prev) = Some 0 \<or> restSec (last prev) = None then Some 60
                    else restSec (last prev)))"
proof -
  let ?n = "newSet exId prev"
  have inherit: "or_else v None = (if v = Some 0 then None else v)" for v
    by (cases v) (simp_all add: or_else_def truthy_def)
  have rest: "or_else v (Some 60) = (if v = Some 0 \<or> v = None then Some 60 else v)" for v
    by (cases v) (simp_all add: or_else_def truthy_def)
  have r: "addSetToExercise exId a
            = Returned (a\<lparr>currentSession := Some (sess\<lparr>sets := sets sess @ [?n]\<rparr>)\<rparr>)"
    using assms by (simp add: addSetToExercise_def pushSet_def)
  have f: "ex ?n = exId \<and> set_no ?n = length prev + 1 \<and> reps ?n = None \<and> rpe ?n = None \<and>
           \<not> is_done ?n"
    by (simp add: newSet_def)
  have e: "prev = [] \<longrightarrow> plannedReps ?n = None \<and> load ?n = None \<and> restSec ?n = Some 60"
    by (simp add: newSet_def last_field_def inherit rest)
  have ne: "prev \<noteq> [] \<longrightarrow>
       plannedReps ?n = (if plannedReps (last prev) = Some 0 then None else plannedReps (last prev)) \<and>
       load ?n = (if load (last prev) = Some 0 then None else load (last prev)) \<and>
       restSec ?n = (if restSec (last prev) = Some 0 \<or> restSec (last prev) = None then Some 60
                    else restSec (last prev))"
    by (simp add: newSet_def last_field_def inherit rest)
  from r f e ne show ?thesis by (intro exI [of _ ?n]) (simp only: simp_thms)
qed

theorem addSet_default_fill_witness:
  "addSetToExercise ''squat''
     \<lparr>exercises = [(''squat'', \<lparr>name = ''Squat'', tags = []\<rparr>)], workouts = [],
        currentSession = Some
          \<lparr>startedAt = 1000, endedAt = None, notes_of = [], unit_of = kg,
             sets = [\<lparr>ex = ''squat'', set_no = 1, plannedReps = Some 8, reps = Some 8,
                        load = Some 80, rpe = None, restSec = Some 90, is_done = True\<rparr>]\<rparr>\<rparr>
   = Returned
     \<lparr>exercises = [(''squat'', \<lparr>name = ''Squat'', tags = []\<rparr>)], workouts = [],
        currentSession = Some
          \<lparr>startedAt = 1000, endedAt = None, notes_of = [], unit_of = kg,
             sets = [\<lparr>ex = ''squat'', set_no = 1, plannedReps = Some 8, reps = Some 8,
                        load = Some 80, rpe = None, restSec = Some 90, is_done = True\<rparr>,
                     \<lparr>ex = ''squat'', set_no = 2, plannedReps = Some 8, reps = None,
                        load = Some 80, rpe = None, restSec = Some 90, is_done = False\<rparr>]\<rparr>\<rparr>"
proof -
  let ?p = "\<lparr>ex = ''squat'', set_no = 1, plannedReps = Some 8, reps = Some 8,
               load = Some 80, rpe = None, restSec = Some 90, is_done = True\<rparr>"
  let ?sess = "\<lparr>startedAt = 1000, endedAt = None, notes_of = [], unit_of = kg, sets = [?p]\<rparr>"
  let ?a = "\<lparr>exercises = [(''squat'', \<lparr>name = ''Squat'', tags = []\<rparr>)], workouts = [],
               currentSession = Some ?sess\<rparr>"
  have cs: "currentSession ?a = Some ?sess" by simp
  have prev: "[?p] = filter (\<lambda>s. ex s = ''squat'') (sets ?sess)" by simp
  have len: "length [?p] + 1 = 2" by simp
  have ne: "[?p] \<noteq> []" by simp
  have l: "last [?p] = ?p" by simp
  from addSet_default_fill [OF cs prev] obtain n where
    r: "addSetToExercise ''squat'' ?a
          = Returned (?a\<lparr>currentSession := Some (?sess\<lparr>sets := sets ?sess @ [n]\<rparr>)\<rparr>)"
    and f: "ex n = ''squat''" "set_no n = length [?p] + 1" "reps n = None" "rpe n = None"
      "\<not> is_done n"
    and g: "[?p] \<noteq> [] \<longrightarrow>
       plannedReps n = (if plannedReps (last [?p]) = Some 0 then None else plannedReps (last [?p])) \<and>
       load n = (if load (last [?p]) = Some 0 then None else load (last [?p])) \<and>
       restSec n = (if restSec (last [?p]) = Some 0 \<or> restSec (last [?p]) = None then Some 60
                    else restSec (last [?p]))"
    by blast
  from g ne have g': "plannedReps n = Some 8" "load n = Some 80" "restSec n = Some 90"
    unfolding l by simp_all
  from f g' have "n = \<lparr>ex = ''squat'', set_no = 2, plannedReps = Some 8, reps = None,
                     load = Some 80, rpe = None, restSec = Some 90, is_done = False\<rparr>"
    by (cases n) simp
  with r show ?thesis by simp
qed

text \<open>
  A session whose only squat set has no \<open>restSec\<close> (the user cleared the input): the
  set added next does not inherit the absent value, it gets \<open>60\<close>.
\<close>

theorem addSet_restSec_counterexample:
  "addSetToExercise ''squat''
     \<lparr>exercises = [(''squat'', \<lparr>name = ''Squat'', tags = []\<rparr>)], workouts = [],
        currentSession = Some
          \<lparr>startedAt = 1000, endedAt = None, notes_of = [], unit_of = kg,
             sets = [\<lparr>ex = ''squat'', set_no = 1, plannedReps = Some 8, reps = Some 8,
                        load = Some 80, rpe = None, restSec = None, is_done = True\<rparr>]\<rparr>\<rparr>
   = Returned
     \<lparr>exercises = [(''squat'', \<lparr>name = ''Squat'', tags = []\<rparr>)], workouts = [],
        currentSession = Some
          \<lparr>startedAt = 1000, endedAt = None, notes_of = [], unit_of = kg,
             sets = [\<lparr>ex = ''squat'', set_no = 1, plannedReps = Some 8, reps = Some 8,
                        load = Some 80, rpe = None, restSec = None, is_done = True\<rparr>,
                     \<lparr>ex = ''squat'', set_no = 2, plannedReps = Some 8, reps = None,
                        load = Some 80, rpe = None, restSec = Some 60, is_done = False\<rparr>]\<rparr>\<rparr> \<and>
   restSec \<lparr>ex = ''squat'', set_no = 2, plannedReps = Some 8, reps = None,
             load = Some 80, rpe = None, restSec = Some 60, is_done = False\<rparr>
   \<noteq> restSec \<lparr>ex = ''squat'', set_no = 1, plannedReps = Some 8, reps = Some 8,
                load = Some 80, rpe = None, restSec = None, is_done = True\<rparr>"
  by (simp add: addSetToExercise_def pushSet_def newSet_def last_field_def or_else_def truthy_def)

section \<open>Workouts are stored under their start time, by finishing only\<close>

lemma run_Nil: "run [] a = a"
  by (simp add: run_def)

lemma run_snoc: "run (es @ [e]) a = step e (run es a)"
  by (simp add: run_def)

lemma set_update_subset: "set (AList.update k v al) \<subseteq> insert (k, v) (set al)"
  by (induction al) auto

lemma workouts_step_frame: "\<not> is_finish e \<Longrightarrow> workouts (step e a) = workouts a"
  by (cases e)
    (auto simp: is_finish_def startNewSession_def addExerciseFlow_def addSetToExercise_def
      state_after_def onSet_def changeUnit_def cancelSession_def Let_def split: option.splits)

lemma keys_ok_step: "keys_ok a \<Longrightarrow> keys_ok (step e a)"
proof (cases "is_finish e")
  case False
  assume "keys_ok a"
  with False show ?thesis by (simp add: keys_ok_def workouts_step_frame)
next
  case True
  assume k: "keys_ok a"
  from True obtain now where e: "e = Finish now" by (cases e) (auto simp: is_finish_def)
  show ?thesis
  proof (cases "currentSession a")
    case None
    with k e show ?thesis by (simp add: finishSession_def)
  next
    case (Some sess)
    have "set (workouts (step e a))
          \<subseteq> insert (startedAt sess, sess\<lparr>endedAt := Some now\<rparr>) (set (workouts a))"
      using e Some set_update_subset by (simp add: finishSession_def Let_def)
    with k show ?thesis by (auto simp: keys_ok_def)
  qed
qed

lemma keys_ok_run: "keys_ok a \<Longrightarrow> keys_ok (run es a)"
  by (induction es rule: rev_induct) (simp_all add: run_Nil run_snoc keys_ok_step)

lemma keys_ok_empty: "keys_ok empty_app"
  by (simp add: keys_ok_def empty_app_def)

lemma map_of_update_same: "map_of (AList.update k v al) k = Some v"
  by (simp add: update_conv')

text \<open>
  C9. In every state reached from the empty profile by the events of a session,
  every entry of the workouts has its workout's start time as its key. An event
  other than finishing leaves the workouts as they are; finishing stores the live
  session, with its end time, under its start time, and does nothing when no session
  is live.
\<close>

theorem workouts_keyed_by_startedAt:
  "(\<forall>kw \<in> set (workouts (run es empty_app)). startedAt (snd kw) = fst kw) \<and>
   (\<not> is_finish e \<longrightarrow> workouts (step e a) = workouts a) \<and>
   (currentSession a = Some sess \<longrightarrow>
      map_of (workouts (step (Finish now) a)) (startedAt sess) = Some (sess\<lparr>endedAt := Some now\<rparr>)) \<and>
   (currentSession a = None \<longrightarrow> step (Finish now) a = a)"
proof -
  have "keys_ok (run es empty_app)" by (simp add: keys_ok_run keys_ok_empty)
  then show ?thesis
    by (auto simp: keys_ok_def workouts_step_frame finishSession_def Let_def map_of_update_same)
qed

theorem workouts_keyed_by_startedAt_witness:
  "workouts (run [Start 1000, AddExercise (Some ''Squat''), UpdateSetField 0 Reps ''8'',
                  MarkDone 0 True, Finish 2000] empty_app)
   = [(1000, \<lparr>startedAt = 1000, endedAt = Some 2000, notes_of = [], unit_of = kg,
               sets = [\<lparr>ex = ''squat'', set_no = 1, plannedReps = None, reps = Some 8,
                          load = None, rpe = None, restSec = Some 60, is_done = True\<rparr>]\<rparr>)] \<and>
   workouts (step (AddSet ''squat'') (run [Start 1000] empty_app)) = [] \<and>
   map_of (workouts (step (Finish 2000) (run [Start 1000] empty_app))) 1000
     = Some \<lparr>startedAt = 1000, endedAt = Some 2000, notes_of = [], unit_of = kg, sets = []\<rparr> \<and>
   step (Finish 2000) empty_app = empty_app"
proof -
  have r: "run [Start 1000, AddExercise (Some ''Squat''), UpdateSetField 0 Reps ''8'',
                MarkDone 0 True, Finish 2000] empty_app
     = \<lparr>exercises = [(''squat'', \<lparr>name = ''Squat'', tags = []\<rparr>)],
        workouts = [(1000, \<lparr>startedAt = 1000, endedAt = Some 2000, notes_of = [], unit_of = kg,
               sets = [\<lparr>ex = ''squat'', set_no = 1, plannedReps = None, reps = Some 8,
                          load = None, rpe = None, restSec = Some 60, is_done = True\<rparr>]\<rparr>)],
        currentSession = None\<rparr>"
    by code_simp
  have s: "run [Start 1000] empty_app
     = \<lparr>exercises = [], workouts = [],
        currentSession = Some \<lparr>startedAt = 1000, endedAt = None, notes_of = [], unit_of = kg,
                                sets = []\<rparr>\<rparr>"
    by code_simp
  have f: "\<not> is_finish (AddSet ''squat'')" by (simp add: is_finish_def)
  have n: "currentSession empty_app = None" by (simp add: empty_app_def)
  from workouts_keyed_by_startedAt [of "[Start 1000, AddExercise (Some ''Squat''),
      UpdateSetField 0 Reps ''8'', MarkDone 0 True, Finish 2000]" "AddSet ''squat''"
      "run [Start 1000] empty_app"
      "\<lparr>startedAt = 1000, endedAt = None, notes_of = [], unit_of = kg, sets = []\<rparr>" 2000]
    workouts_keyed_by_startedAt [of "[]" Cancel empty_app
      "\<lparr>startedAt = 1000, endedAt = None, notes_of = [], unit_of = kg, sets = []\<rparr>" 2000]
  show ?thesis using r s f n by simp
qed

section \<open>No set holds a zero\<close>

lemma or_else_not_zero: "b \<noteq> Some 0 \<Longrightarrow> or_else a b \<noteq> Some 0"
  by (auto simp: or_else_def truthy_def split: option.splits)

lemma nonzero_newSet: "nonzero (newSet exId prev)"
  by (simp add: nonzero_def newSet_def or_else_not_zero)

lemma nonzero_inputField: "nonzero s \<Longrightarrow> nonzero (inputField f v s)"
  by (cases f) (simp_all add: nonzero_def or_else_not_zero)

lemma nonzero_changeDone: "nonzero s \<Longrightarrow> nonzero (changeDone c s)"
  by (simp add: nonzero_def changeDone_def)

lemma nonzero_field_of: "nonzero s \<Longrightarrow> field_of f s \<noteq> Some 0"
  by (cases f) (simp_all add: nonzero_def)

lemma no_zero_iff:
  "no_zero a \<longleftrightarrow> (\<forall>kw \<in> set (workouts a). list_all nonzero (sets (snd kw))) \<and>
      (case currentSession a of None \<Rightarrow> True | Some sess \<Rightarrow> list_all nonzero (sets sess))"
  by (auto simp: no_zero_def all_sets_def list_all_iff split: option.splits)

lemma no_zero_addSet: "no_zero a \<Longrightarrow> no_zero (state_after (addSetToExercise exId a))"
  by (auto simp: no_zero_iff addSetToExercise_def state_after_def pushSet_def Let_def
      nonzero_newSet split: option.splits)

lemma no_zero_exercises: "no_zero (a\<lparr>exercises := x\<rparr>) = no_zero a"
  by (simp add: no_zero_iff)

lemma no_zero_addExercise: "no_zero a \<Longrightarrow> no_zero (state_after (addExerciseFlow answer a))"
  by (auto simp: addExerciseFlow_def Let_def no_zero_addSet no_zero_exercises
      state_after_def[of "Returned _"] split: option.splits)

lemma no_zero_onSet:
  assumes "no_zero a" and "\<And>s. nonzero s \<Longrightarrow> nonzero (f s)"
  shows "no_zero (onSet i f a)"
proof (cases "currentSession a")
  case None
  with assms show ?thesis by (simp add: onSet_def)
next
  case (Some sess)
  show ?thesis
  proof (cases "i < length (sets sess)")
    case False
    with Some assms show ?thesis by (simp add: onSet_def)
  next
    case True
    from assms(1) Some have all: "list_all nonzero (sets sess)" by (simp add: no_zero_iff)
    with True have "nonzero (sets sess ! i)" by (simp add: list_all_length)
    then have "nonzero (f (sets sess ! i))" by (rule assms(2))
    with all have "list_all nonzero ((sets sess)[i := f (sets sess ! i)])"
      by (auto simp: list_all_iff dest: set_update_subset_insert[THEN subsetD])
    with assms(1) Some True show ?thesis by (simp add: onSet_def no_zero_iff)
  qed
qed

lemma no_zero_finish: "no_zero a \<Longrightarrow> no_zero (finishSession now a)"
proof (cases "currentSession a")
  case None
  assume "no_zero a"
  with None show ?thesis by (simp add: finishSession_def)
next
  case (Some sess)
  assume nz: "no_zero a"
  have sub: "set (AList.update (startedAt sess) (sess\<lparr>endedAt := Some now\<rparr>) (workouts a))
        \<subseteq> insert (startedAt sess, sess\<lparr>endedAt := Some now\<rparr>) (set (workouts a))"
    by (rule set_update_subset)
  from nz Some show ?thesis
    using sub by (auto simp: finishSession_def Let_def no_zero_iff)
qed

lemma no_zero_step: "no_zero a \<Longrightarrow> no_zero (step e a)"
proof (cases e)
  case (Start now)
  assume "no_zero a"
  with Start show ?thesis by (simp add: startNewSession_def no_zero_iff)
next
  case (AddExercise answer)
  assume "no_zero a"
  with AddExercise show ?thesis by (simp add: no_zero_addExercise)
next
  case (AddSet exId)
  assume "no_zero a"
  with AddSet show ?thesis by (simp add: no_zero_addSet)
next
  case (UpdateSetField i f v)
  assume "no_zero a"
  with UpdateSetField show ?thesis by (simp add: no_zero_onSet nonzero_inputField)
next
  case (MarkDone i c)
  assume "no_zero a"
  with MarkDone show ?thesis by (simp add: no_zero_onSet nonzero_changeDone)
next
  case (ChangeUnit u)
  assume "no_zero a"
  with ChangeUnit show ?thesis by (auto simp: changeUnit_def no_zero_iff split: option.splits)
next
  case (Finish now)
  assume "no_zero a"
  with Finish show ?thesis by (simp add: no_zero_finish)
next
  case Cancel
  assume "no_zero a"
  with Cancel show ?thesis by (simp add: cancelSession_def no_zero_iff)
qed

lemma no_zero_run: "no_zero a \<Longrightarrow> no_zero (run es a)"
  by (induction es rule: rev_induct) (simp_all add: run_Nil run_snoc no_zero_step)

lemma no_zero_empty: "no_zero empty_app"
  by (simp add: no_zero_def all_sets_def empty_app_def)

lemma input_zero_absent: "field_of f (inputField f ''0'' s) = None"
proof -
  have "parseInt ''0'' = Some 0" by code_simp
  moreover have "parseFloat ''0'' = Some 0" by code_simp
  ultimately show ?thesis by (cases f) (simp_all add: or_else_def truthy_def)
qed

text \<open>
  C10. Typing \<open>0\<close> into the input of a numeric field of a set stores the field as
  absent. In every state reached from the empty profile by the events of a session,
  no set, of the live session or of a stored workout, holds \<open>0\<close> in a numeric field.
  A new set takes \<open>null\<close> for a \<open>plannedReps\<close> or \<open>load\<close> of \<open>0\<close> in the set it
  inherits from, and \<open>60\<close> for a \<open>restSec\<close> of \<open>0\<close>.
\<close>

theorem no_stored_zero:
  "field_of f (inputField f ''0'' s) = None \<and>
   (\<forall>s' \<in> set (all_sets (run es empty_app)). field_of g s' \<noteq> Some 0) \<and>
   (last_field plannedReps prev = Some 0 \<longrightarrow> plannedReps (newSet exId prev) = None) \<and>
   (last_field load prev = Some 0 \<longrightarrow> load (newSet exId prev) = None) \<and>
   (last_field restSec prev = Some 0 \<longrightarrow> restSec (newSet exId prev) = Some 60)"
proof -
  have "no_zero (run es empty_app)" by (simp add: no_zero_run no_zero_empty)
  then have "\<forall>s' \<in> set (all_sets (run es empty_app)). field_of g s' \<noteq> Some 0"
    by (simp add: no_zero_def list_all_iff nonzero_field_of)
  then show ?thesis
    by (simp add: input_zero_absent newSet_def or_else_def truthy_def)
qed

theorem no_stored_zero_witness:
  "load (inputField Load ''0''
      \<lparr>ex = ''squat'', set_no = 1, plannedReps = None, reps = None,
         load = Some 80, rpe = None, restSec = Some 60, is_done = False\<rparr>) = None \<and>
   all_sets (run [Start 1000, AddExercise (Some ''Squat''), UpdateSetField 0 Load ''80'',
                  UpdateSetField 0 Load ''0'', AddSet ''squat''] empty_app)
   = [\<lparr>ex = ''squat'', set_no = 1, plannedReps = None, reps = None,
         load = None, rpe = None, restSec = Some 60, is_done = False\<rparr>,
      \<lparr>ex = ''squat'', set_no = 2, plannedReps = None, reps = None,
         load = None, rpe = None, restSec = Some 60, is_done = False\<rparr>] \<and>
   restSec (newSet ''squat''
      [\<lparr>ex = ''squat'', set_no = 1, plannedReps = Some 0, reps = None,
          load = Some 0, rpe = None, restSec = Some 0, is_done = False\<rparr>]) = Some 60 \<and>
   load (newSet ''squat''
      [\<lparr>ex = ''squat'', set_no = 1, plannedReps = Some 0, reps = None,
          load = Some 0, rpe = None, restSec = Some 0, is_done = False\<rparr>]) = None \<and>
   plannedReps (newSet ''squat''
      [\<lparr>ex = ''squat'', set_no = 1, plannedReps = Some 0, reps = None,
          load = Some 0, rpe = None, restSec = Some 0, is_done = False\<rparr>]) = None"
proof -
  let ?z = "\<lparr>ex = ''squat'', set_no = 1, plannedReps = Some 0, reps = None,
               load = Some 0, rpe = None, restSec = Some 0, is_done = False\<rparr>"
  have r: "all_sets (run [Start 1000, AddExercise (Some ''Squat''), UpdateSetField 0 Load ''80'',
                  UpdateSetField 0 Load ''0'', AddSet ''squat''] empty_app)
   = [\<lparr>ex = ''squat'', set_no = 1, plannedReps = None, reps = None,
         load = None, rpe = None, restSec = Some 60, is_done = False\<rparr>,
      \<lparr>ex = ''squat'', set_no = 2, plannedReps = None, reps = None,
         load = None, rpe = None, restSec = Some 60, is_done = False\<rparr>]"
    by code_simp
  have z: "last_field plannedReps [?z] = Some 0" "last_field load [?z] = Some 0"
    "last_field restSec [?z] = Some 0"
    by (simp_all add: last_field_def)
  from no_stored_zero [of Load "\<lparr>ex = ''squat'', set_no = 1, plannedReps = None, reps = None,
         load = Some 80, rpe = None, restSec = Some 60, is_done = False\<rparr>"
      "[Start 1000, AddExercise (Some ''Squat''), UpdateSetField 0 Load ''80'',
        UpdateSetField 0 Load ''0'', AddSet ''squat'']" Load "[?z]" "''squat''"]
  show ?thesis using r z by simp
qed

section \<open>Duration of a workout\<close>

lemma round_half_up_close:
  fixes y :: rat
  shows "\<bar>of_int \<lfloor>10 * y + 1 / 2\<rfloor> / 10 - y\<bar> \<le> 1 / 20"
proof -
  define n where "n = \<lfloor>10 * y + 1 / 2\<rfloor>"
  have "of_int n \<le> 10 * y + 1 / 2" "10 * y + 1 / 2 < of_int n + 1"
    unfolding n_def by linarith+
  then have "\<bar>of_int n / 10 - y\<bar> \<le> 1 / 20" by linarith
  then show ?thesis by (simp add: n_def)
qed

lemma toFixed1_tenths:
  "\<exists>n :: int. toFixed1 x = of_int n / 10 \<and> \<bar>of_int n / 10 - x\<bar> \<le> 1 / 20"
proof (cases "x < 0")
  case False
  with round_half_up_close [of x] show ?thesis
    by (auto simp: toFixed1_def)
next
  case True
  let ?n = "\<lfloor>10 * (- x) + 1 / 2\<rfloor>"
  have "\<bar>of_int ?n / 10 - (- x)\<bar> \<le> 1 / 20" by (rule round_half_up_close)
  then have "\<bar>of_int (- ?n) / 10 - x\<bar> \<le> 1 / 20" unfolding of_int_minus by linarith
  moreover have "toFixed1 x = of_int (- ?n) / 10" using True by (simp add: toFixed1_def)
  ultimately show ?thesis by blast
qed

text \<open>
  C6. The duration of a workout with an end time is the time from start to end in
  minutes, rounded to one decimal place: a number of tenths that is at most half a
  tenth away from it. Without an end time it is the dash.
\<close>

theorem duration_minutes_one_decimal:
  "(endedAt w = None \<longrightarrow> duration w = Dash) \<and>
   (endedAt w = Some e \<longrightarrow>
      (\<exists>n :: int. duration w = Minutes (of_int n / 10) \<and>
         \<bar>of_int n / 10 - of_int (e - startedAt w) / (60000 :: rat)\<bar> \<le> 1 / 20))"
  using toFixed1_tenths [of "of_int (e - startedAt w) / 60000"]
  by (auto simp: duration_def)

theorem duration_minutes_one_decimal_witness:
  "duration \<lparr>startedAt = 1000, endedAt = Some 755321, notes_of = [], unit_of = kg, sets = []\<rparr>
     = Minutes (126 / 10) \<and>
   \<bar>126 / 10 - of_int (755321 - 1000) / (60000 :: rat)\<bar> \<le> 1 / 20 \<and>
   duration \<lparr>startedAt = 1000, endedAt = None, notes_of = [], unit_of = kg, sets = []\<rparr> = Dash"
proof -
  have d: "duration \<lparr>startedAt = 1000, endedAt = Some 755321, notes_of = [], unit_of = kg,
                      sets = []\<rparr> = Minutes (126 / 10)"
    by code_simp
  from duration_minutes_one_decimal
    [of "\<lparr>startedAt = 1000, endedAt = None, notes_of = [], unit_of = kg, sets = []\<rparr>" 0]
    duration_minutes_one_decimal
    [of "\<lparr>startedAt = 1000, endedAt = Some 755321, notes_of = [], unit_of = kg, sets = []\<rparr>" 755321]
  show ?thesis using d by simp
qed

section \<open>The order of timestamp texts\<close>

lemma DayFromYear_mono_nat: "DayFromYear y \<le> DayFromYear (y + int n)"
proof (induction n)
  case 0
  show ?case by simp
next
  case (Suc n)
  have "y + int (Suc n) = (y + int n) + 1" by simp
  then have "DayFromYear (y + int (Suc n)) = DayFromYear ((y + int n) + 1)" by (rule arg_cong)
  with DayFromYear_less [of "y + int n"] Suc show ?case by linarith
qed

lemma DayFromYear_mono: "y \<le> y' \<Longrightarrow> DayFromYear y \<le> DayFromYear y'"
  using DayFromYear_mono_nat [of y "nat (y' - y)"] by simp

lemma DayFromYear_strict: "y < y' \<Longrightarrow> DayFromYear y < DayFromYear y'"
proof -
  assume "y < y'"
  then have "y + 1 \<le> y'" by simp
  then have "DayFromYear (y + 1) \<le> DayFromYear y'" by (rule DayFromYear_mono)
  with DayFromYear_less [of y] show ?thesis by simp
qed

lemma year_search_char:
  "DayFromYear y \<le> d \<Longrightarrow>
   DayFromYear (year_search d y) \<le> d \<and> d < DayFromYear (year_search d y + 1)"
proof (induction d y rule: year_search.induct)
  case (1 d y)
  show ?case
  proof (cases "DayFromYear (y + 1) \<le> d")
    case True
    with 1 show ?thesis by (simp add: year_search.simps [of d y])
  next
    case False
    with 1 show ?thesis by (simp add: year_search.simps [of d y])
  qed
qed

lemma DayFromYear_upper: "0 \<le> k \<Longrightarrow> DayFromYear (1970 + k) \<le> 366 * k"
proof -
  assume "0 \<le> k"
  have "DayFromYear (1970 + int n) \<le> 366 * int n" for n
  proof (induction n)
    case 0
    show ?case by (simp add: DayFromYear_def)
  next
    case (Suc n)
    have "1970 + int (Suc n) = (1970 + int n) + 1" by simp
    then have "DayFromYear (1970 + int (Suc n)) = DayFromYear ((1970 + int n) + 1)"
      by (rule arg_cong)
    also have "\<dots> = DayFromYear (1970 + int n) + DaysInYear (1970 + int n)"
      by (rule DayFromYear_Suc)
    finally have "DayFromYear (1970 + int (Suc n)) \<le> 366 * int n + 366"
      using Suc DaysInYear_bounds(2) [of "1970 + int n"] by linarith
    moreover have "366 * int (Suc n) = 366 * int n + 366" by simp
    ultimately show ?case by linarith
  qed
  from this [of "nat k"] \<open>0 \<le> k\<close> show ?thesis by simp
qed

lemma DayFromYear_lower: "0 \<le> k \<Longrightarrow> DayFromYear (1970 - k) \<le> - (365 * k)"
proof -
  assume "0 \<le> k"
  have "DayFromYear (1970 - int n) \<le> - (365 * int n)" for n
  proof (induction n)
    case 0
    show ?case by (simp add: DayFromYear_def)
  next
    case (Suc n)
    have "1970 - int n = (1970 - int (Suc n)) + 1" by simp
    then have "DayFromYear (1970 - int n) = DayFromYear ((1970 - int (Suc n)) + 1)"
      by (rule arg_cong)
    also have "\<dots> = DayFromYear (1970 - int (Suc n)) + DaysInYear (1970 - int (Suc n))"
      by (rule DayFromYear_Suc)
    finally have "DayFromYear (1970 - int (Suc n)) \<le> - (365 * int n) - 365"
      using Suc DaysInYear_bounds(1) [of "1970 - int (Suc n)"] by linarith
    moreover have "365 * int (Suc n) = 365 * int n + 365" by simp
    ultimately show ?case by linarith
  qed
  from this [of "nat k"] \<open>0 \<le> k\<close> show ?thesis by simp
qed

lemma YearFromDay_char:
  "DayFromYear (YearFromDay d) \<le> d \<and> d < DayFromYear (YearFromDay d + 1)"
proof -
  have "DayFromYear (1970 + (if 0 \<le> d then d div 366 else d div 365)) \<le> d"
  proof (cases "0 \<le> d")
    case True
    then have "0 \<le> d div 366" by simp
    then have "DayFromYear (1970 + d div 366) \<le> 366 * (d div 366)" by (rule DayFromYear_upper)
    also have "\<dots> \<le> d" by simp
    finally show ?thesis using True by simp
  next
    case False
    then have k: "0 \<le> - (d div 365)" by simp
    have "DayFromYear (1970 - (- (d div 365))) \<le> - (365 * (- (d div 365)))"
      using k by (rule DayFromYear_lower)
    then have "DayFromYear (1970 + d div 365) \<le> 365 * (d div 365)" by simp
    also have "\<dots> \<le> d" by simp
    finally show ?thesis using False by simp
  qed
  then show ?thesis unfolding YearFromDay_def by (rule year_search_char)
qed

lemma YearFromDay_mono: "d \<le> d' \<Longrightarrow> YearFromDay d \<le> YearFromDay d'"
proof (rule ccontr)
  assume le: "d \<le> d'" and "\<not> YearFromDay d \<le> YearFromDay d'"
  then have "YearFromDay d' + 1 \<le> YearFromDay d" by simp
  then have "DayFromYear (YearFromDay d' + 1) \<le> DayFromYear (YearFromDay d)"
    by (rule DayFromYear_mono)
  with YearFromDay_char [of d] YearFromDay_char [of d'] le show False by simp
qed

lemma length_pad: "length (pad k n) = k"
  by (induction k) simp_all

lemma digit_char_less:
  assumes "0 \<le> a" and "a < 10" and "0 \<le> b" and "b < 10"
  shows "digit_char a < digit_char b \<longleftrightarrow> a < b"
proof -
  have "of_char (digit_char d) = nat (48 + d)" if "0 \<le> d" "d < 10" for d
    using that by (simp add: digit_char_def)
  with assms show ?thesis by (simp add: less_char_def)
qed

lemma mod_pow_Suc:
  fixes n :: int
  shows "n mod 10 ^ Suc k = 10 ^ k * (n div 10 ^ k mod 10) + n mod 10 ^ k"
  using zmod_zmult2_eq [of 10 n "10 ^ k"] by (simp add: mult.commute)

lemma pad_less: "n1 mod 10 ^ k < n2 mod 10 ^ k \<Longrightarrow> pad k n1 < pad k n2"
proof (induction k)
  case 0
  then show ?case by simp
next
  case (Suc k)
  define a1 where "a1 = n1 div 10 ^ k mod 10"
  define a2 where "a2 = n2 div 10 ^ k mod 10"
  define b1 where "b1 = n1 mod 10 ^ k"
  define b2 where "b2 = n2 mod 10 ^ k"
  have a: "0 \<le> a1" "a1 < 10" "0 \<le> a2" "a2 < 10" by (simp_all add: a1_def a2_def)
  have b: "0 \<le> b1" "b1 < 10 ^ k" "0 \<le> b2" "b2 < 10 ^ k" by (simp_all add: b1_def b2_def)
  from Suc.prems have lt: "10 ^ k * a1 + b1 < 10 ^ k * a2 + b2"
    by (simp only: mod_pow_Suc a1_def a2_def b1_def b2_def)
  have "a1 \<le> a2"
  proof (rule ccontr)
    assume "\<not> a1 \<le> a2"
    then have "a2 + 1 \<le> a1" by simp
    then have "10 ^ k * (a2 + 1) \<le> (10 :: int) ^ k * a1" by (intro mult_left_mono) simp_all
    with lt b show False by (simp add: algebra_simps)
  qed
  then consider "a1 < a2" | "a1 = a2" by force
  then show ?case
  proof cases
    case 1
    with a have "digit_char a1 < digit_char a2" by (simp add: digit_char_less)
    then show ?thesis by (simp add: a1_def a2_def)
  next
    case 2
    with lt have "b1 < b2" by simp
    then have "pad k n1 < pad k n2" unfolding b1_def b2_def by (rule Suc.IH)
    with 2 show ?thesis by (simp add: a1_def a2_def)
  qed
qed

lemma pad_less_small: "0 \<le> n1 \<Longrightarrow> n1 < n2 \<Longrightarrow> n2 < 10 ^ k \<Longrightarrow> pad k n1 < pad k n2"
  by (rule pad_less) simp

lemma append_less_same_length:
  fixes a a' b b' :: string
  shows "length a = length a' \<Longrightarrow> (a @ b < a' @ b') = (a < a' \<or> a = a' \<and> b < b')"
  by (induction a a' rule: list_induct2) auto

lemma month_date_lex:
  "d1 < d2 \<Longrightarrow>
   MonthFromDay l d1 < MonthFromDay l d2 \<or>
   MonthFromDay l d1 = MonthFromDay l d2 \<and> DateFromDay l d1 < DateFromDay l d2"
  by (simp add: MonthFromDay_def DateFromDay_def)

lemma month_bounds: "0 \<le> MonthFromDay l d \<and> MonthFromDay l d \<le> 11"
  by (simp add: MonthFromDay_def)

lemma date_bounds:
  "0 \<le> d \<Longrightarrow> d < 365 + l \<Longrightarrow> 0 \<le> l \<Longrightarrow> l \<le> 1 \<Longrightarrow>
   1 \<le> DateFromDay l d \<and> DateFromDay l d \<le> 31"
  by (simp add: MonthFromDay_def DateFromDay_def)

lemma bucket:
  fixes t1 t2 u k :: int
  assumes "t1 div (u * k) = t2 div (u * k)" and "t1 \<le> t2" and "0 < u" and "0 < k"
  shows "(t1 div u) mod k \<le> (t2 div u) mod k \<and>
         ((t1 div u) mod k = (t2 div u) mod k \<longrightarrow> t1 div u = t2 div u)"
proof -
  define q1 where "q1 = t1 div u"
  define q2 where "q2 = t2 div u"
  have le: "q1 \<le> q2" unfolding q1_def q2_def using assms(2,3) by (simp add: zdiv_mono1)
  have "t1 div (u * k) = q1 div k" "t2 div (u * k) = q2 div k"
    unfolding q1_def q2_def using assms(4) by (simp_all add: zdiv_zmult2_eq)
  with assms(1) have same: "q1 div k = q2 div k" by simp
  have "q1 = k * (q1 div k) + q1 mod k" "q2 = k * (q2 div k) + q2 mod k" by simp_all
  with same le have "q1 mod k \<le> q2 mod k \<and> (q1 mod k = q2 mod k \<longrightarrow> q1 = q2)"
    by (metis add_le_cancel_left)
  then show ?thesis by (simp add: q1_def q2_def)
qed

lemma bucket_last:
  fixes t1 t2 u :: int
  assumes "t1 div u = t2 div u" and "t1 < t2"
  shows "t1 mod u < t2 mod u"
proof -
  have "t1 = u * (t1 div u) + t1 mod u" "t2 = u * (t2 div u) + t2 mod u" by simp_all
  with assms show ?thesis by (metis add_less_cancel_left)
qed

lemma date_lex:
  assumes "t1 < t2"
  shows "Day t1 < Day t2 \<and>
         (YearFromTime t1 < YearFromTime t2 \<or>
          YearFromTime t1 = YearFromTime t2 \<and>
          (MonthFromTime t1 < MonthFromTime t2 \<or>
           MonthFromTime t1 = MonthFromTime t2 \<and> DateFromTime t1 < DateFromTime t2)) \<or>
         Day t1 = Day t2 \<and> YearFromTime t1 = YearFromTime t2 \<and>
         MonthFromTime t1 = MonthFromTime t2 \<and> DateFromTime t1 = DateFromTime t2"
proof -
  have le: "Day t1 \<le> Day t2" using assms by (simp add: Day_def msPerDay_def zdiv_mono1)
  show ?thesis
  proof (cases "Day t1 = Day t2")
    case True
    then show ?thesis
      by (simp add: YearFromTime_def MonthFromTime_def DateFromTime_def DayWithinYear_def)
  next
    case False
    with le have lt: "Day t1 < Day t2" by simp
    have y: "YearFromTime t1 \<le> YearFromTime t2"
      unfolding YearFromTime_def using le by (rule YearFromDay_mono)
    show ?thesis
    proof (cases "YearFromTime t1 = YearFromTime t2")
      case False
      with y lt show ?thesis by simp
    next
      case True
      with lt have "DayWithinYear t1 < DayWithinYear t2" by (simp add: DayWithinYear_def)
      from month_date_lex [OF this, of "InLeapYear (YearFromTime t2)"] True lt
      show ?thesis by (simp add: MonthFromTime_def DateFromTime_def)
    qed
  qed
qed

lemma time_lex:
  assumes "t1 < t2" and "Day t1 = Day t2"
  shows "HourFromTime t1 < HourFromTime t2 \<or>
         HourFromTime t1 = HourFromTime t2 \<and>
         (MinFromTime t1 < MinFromTime t2 \<or>
          MinFromTime t1 = MinFromTime t2 \<and>
          (SecFromTime t1 < SecFromTime t2 \<or>
           SecFromTime t1 = SecFromTime t2 \<and> msFromTime t1 < msFromTime t2))"
proof -
  have le: "t1 \<le> t2" using assms(1) by simp
  have d: "t1 div (3600000 * 24) = t2 div (3600000 * 24)"
    using assms(2) by (simp add: Day_def msPerDay_def)
  from bucket [OF d le] have h: "HourFromTime t1 \<le> HourFromTime t2"
    and h': "HourFromTime t1 = HourFromTime t2 \<Longrightarrow> t1 div 3600000 = t2 div 3600000"
    by (simp_all add: HourFromTime_def)
  show ?thesis
  proof (cases "HourFromTime t1 = HourFromTime t2")
    case False
    with h show ?thesis by simp
  next
    case True
    then have "t1 div (60000 * 60) = t2 div (60000 * 60)" using h' by simp
    from bucket [OF this le] have m: "MinFromTime t1 \<le> MinFromTime t2"
      and m': "MinFromTime t1 = MinFromTime t2 \<Longrightarrow> t1 div 60000 = t2 div 60000"
      by (simp_all add: MinFromTime_def)
    show ?thesis
    proof (cases "MinFromTime t1 = MinFromTime t2")
      case False
      with m True show ?thesis by simp
    next
      case mt: True
      then have "t1 div (1000 * 60) = t2 div (1000 * 60)" using m' by simp
      from bucket [OF this le] have s: "SecFromTime t1 \<le> SecFromTime t2"
        and s': "SecFromTime t1 = SecFromTime t2 \<Longrightarrow> t1 div 1000 = t2 div 1000"
        by (simp_all add: SecFromTime_def)
      show ?thesis
      proof (cases "SecFromTime t1 = SecFromTime t2")
        case False
        with s True mt show ?thesis by simp
      next
        case st: True
        then have "t1 div 1000 = t2 div 1000" by (rule s')
        then have "msFromTime t1 < msFromTime t2"
          unfolding msFromTime_def using assms(1) by (rule bucket_last)
        with True mt st show ?thesis by simp
      qed
    qed
  qed
qed


lemma field_less:
  assumes "0 \<le> a" and "a < b \<and> b < 10 ^ k \<or> a = b \<and> r1 < r2"
  shows "pad k a @ c # r1 < pad k b @ c # r2"
proof -
  have "(pad k a @ c # r1 < pad k b @ c # r2)
        = (pad k a < pad k b \<or> pad k a = pad k b \<and> c # r1 < c # r2)"
    by (rule append_less_same_length) (simp add: length_pad)
  with assms show ?thesis by (auto simp: pad_less_small)
qed

lemma day_in_year:
  "0 \<le> DayWithinYear t \<and> DayWithinYear t < 365 + InLeapYear (YearFromTime t)"
proof -
  have "DaysInYear y = 365 + InLeapYear y" for y
    by (simp add: DaysInYear_def InLeapYear_def)
  with YearFromDay_char [of "Day t"] DayFromYear_Suc [of "YearFromTime t"]
  show ?thesis by (simp add: DayWithinYear_def YearFromTime_def)
qed

lemma month_range: "0 \<le> MonthFromTime t \<and> MonthFromTime t \<le> 11"
  unfolding MonthFromTime_def by (rule month_bounds)

lemma date_range: "1 \<le> DateFromTime t \<and> DateFromTime t \<le> 31"
proof -
  have "0 \<le> InLeapYear y \<and> InLeapYear y \<le> 1" for y by (simp add: InLeapYear_def)
  with day_in_year [of t] show ?thesis
    unfolding DateFromTime_def by (intro date_bounds) simp_all
qed

lemma date_text_less:
  assumes "0 \<le> YearFromTime t1" and "YearFromTime t2 \<le> 9999"
    and "YearFromTime t1 < YearFromTime t2 \<or>
         YearFromTime t1 = YearFromTime t2 \<and>
         (MonthFromTime t1 < MonthFromTime t2 \<or>
          MonthFromTime t1 = MonthFromTime t2 \<and> DateFromTime t1 < DateFromTime t2)"
  shows "date_text t1 < date_text t2"
proof -
  from assms have y: "0 \<le> YearFromTime t2" "YearFromTime t1 \<le> 9999" by auto
  have d: "pad 2 (DateFromTime t1) < pad 2 (DateFromTime t2)"
    if "DateFromTime t1 < DateFromTime t2"
    using that date_range [of t1] date_range [of t2] by (intro pad_less_small) simp_all
  have m: "pad 2 (MonthFromTime t1 + 1) @ CHR ''-'' # pad 2 (DateFromTime t1)
         < pad 2 (MonthFromTime t2 + 1) @ CHR ''-'' # pad 2 (DateFromTime t2)"
    if "MonthFromTime t1 < MonthFromTime t2 \<or>
        MonthFromTime t1 = MonthFromTime t2 \<and> DateFromTime t1 < DateFromTime t2"
    using that d month_range [of t1] month_range [of t2] by (intro field_less) auto
  have "pad 4 (YearFromTime t1) @ CHR ''-'' # pad 2 (MonthFromTime t1 + 1)
            @ CHR ''-'' # pad 2 (DateFromTime t1)
        < pad 4 (YearFromTime t2) @ CHR ''-'' # pad 2 (MonthFromTime t2 + 1)
            @ CHR ''-'' # pad 2 (DateFromTime t2)"
    using assms y m by (intro field_less) auto
  with assms(1,2) y show ?thesis by (simp add: date_text_def year_text_def)
qed

lemma time_text_less:
  assumes "t1 < t2" and "Day t1 = Day t2"
  shows "time_text t1 < time_text t2"
proof -
  have r: "0 \<le> HourFromTime t \<and> HourFromTime t < 24 \<and> 0 \<le> MinFromTime t \<and> MinFromTime t < 60 \<and>
           0 \<le> SecFromTime t \<and> SecFromTime t < 60 \<and> 0 \<le> msFromTime t \<and> msFromTime t < 1000" for t
    by (simp add: HourFromTime_def MinFromTime_def SecFromTime_def msFromTime_def)
  have ms: "pad 3 (msFromTime t1) @ ''Z'' < pad 3 (msFromTime t2) @ ''Z''"
    if "msFromTime t1 < msFromTime t2"
  proof -
    have "pad 3 (msFromTime t1) < pad 3 (msFromTime t2)"
      using that r [of t1] r [of t2] by (intro pad_less_small) simp_all
    then show ?thesis by (simp add: append_less_same_length length_pad)
  qed
  have s: "pad 2 (SecFromTime t1) @ CHR ''.'' # pad 3 (msFromTime t1) @ ''Z''
         < pad 2 (SecFromTime t2) @ CHR ''.'' # pad 3 (msFromTime t2) @ ''Z''"
    if "SecFromTime t1 < SecFromTime t2 \<or>
        SecFromTime t1 = SecFromTime t2 \<and> msFromTime t1 < msFromTime t2"
    using that ms r [of t1] r [of t2] by (intro field_less) auto
  have m: "pad 2 (MinFromTime t1) @ CHR '':'' # pad 2 (SecFromTime t1)
             @ CHR ''.'' # pad 3 (msFromTime t1) @ ''Z''
         < pad 2 (MinFromTime t2) @ CHR '':'' # pad 2 (SecFromTime t2)
             @ CHR ''.'' # pad 3 (msFromTime t2) @ ''Z''"
    if "MinFromTime t1 < MinFromTime t2 \<or>
        MinFromTime t1 = MinFromTime t2 \<and>
        (SecFromTime t1 < SecFromTime t2 \<or>
         SecFromTime t1 = SecFromTime t2 \<and> msFromTime t1 < msFromTime t2)"
    using that s r [of t1] r [of t2] by (intro field_less) auto
  have "pad 2 (HourFromTime t1) @ CHR '':'' # pad 2 (MinFromTime t1)
             @ CHR '':'' # pad 2 (SecFromTime t1)
             @ CHR ''.'' # pad 3 (msFromTime t1) @ ''Z''
         < pad 2 (HourFromTime t2) @ CHR '':'' # pad 2 (MinFromTime t2)
             @ CHR '':'' # pad 2 (SecFromTime t2)
             @ CHR ''.'' # pad 3 (msFromTime t2) @ ''Z''"
    using time_lex [OF assms] m r [of t1] r [of t2] by (intro field_less) auto
  then show ?thesis by (simp add: time_text_def)
qed

lemma length_date_text:
  "0 \<le> YearFromTime t \<Longrightarrow> YearFromTime t \<le> 9999 \<Longrightarrow> length (date_text t) = 10"
  by (simp add: date_text_def year_text_def length_pad)

text \<open>
  For instants in years of four digits, the later instant has the greater text in the
  lexicographic order of strings.
\<close>

lemma toISOString_strict_mono:
  assumes "t1 < t2" and "0 \<le> YearFromTime t1" and "YearFromTime t2 \<le> 9999"
  shows "toISOString t1 < toISOString t2"
proof -
  have "YearFromTime t1 \<le> YearFromTime t2"
    unfolding YearFromTime_def using assms(1)
    by (intro YearFromDay_mono) (simp add: Day_def msPerDay_def zdiv_mono1)
  with assms have y: "0 \<le> YearFromTime t2" "YearFromTime t1 \<le> 9999" by simp_all
  have len: "length (date_text t1) = length (date_text t2)"
    using assms(2,3) y by (simp add: length_date_text)
  from date_lex [OF assms(1)] show ?thesis
  proof
    assume "Day t1 < Day t2 \<and>
         (YearFromTime t1 < YearFromTime t2 \<or>
          YearFromTime t1 = YearFromTime t2 \<and>
          (MonthFromTime t1 < MonthFromTime t2 \<or>
           MonthFromTime t1 = MonthFromTime t2 \<and> DateFromTime t1 < DateFromTime t2))"
    then have "date_text t1 < date_text t2" using assms(2,3) by (intro date_text_less) simp_all
    with len show ?thesis by (simp add: toISOString_def append_less_same_length)
  next
    assume a: "Day t1 = Day t2 \<and> YearFromTime t1 = YearFromTime t2 \<and>
         MonthFromTime t1 = MonthFromTime t2 \<and> DateFromTime t1 = DateFromTime t2"
    then have "date_text t1 = date_text t2" by (simp add: date_text_def)
    moreover from a assms(1) have "time_text t1 < time_text t2" by (intro time_text_less) simp_all
    ultimately show ?thesis by (simp add: toISOString_def append_less_same_length)
  qed
qed

lemma toISOString_examples:
  "toISOString 0 = ''1970-01-01T00:00:00.000Z''"
  "toISOString 1757829600000 = ''2025-09-14T06:00:00.000Z''"
  "toISOString 1709251199999 = ''2024-02-29T23:59:59.999Z''"
  by code_simp+

section \<open>The most recent workouts\<close>

lemma mset_insert_sorted: "mset (insert_sorted cmp x ys) = add_mset x (mset ys)"
  by (induction ys) simp_all

lemma mset_sort_with: "mset (sort_with cmp xs) = mset xs"
  by (induction xs) (simp_all add: sort_with_def mset_insert_sorted)

lemma set_insert_sorted: "set (insert_sorted cmp x ys) = insert x (set ys)"
  by (induction ys) auto

lemma sorted_insert_byDate:
  "sorted_wrt (\<lambda>x y. fst y \<le> fst x) ys \<Longrightarrow>
   sorted_wrt (\<lambda>x y. fst y \<le> fst x) (insert_sorted byDateDesc x ys)"
  by (induction ys) (auto simp: byDateDesc_def set_insert_sorted)

lemma sorted_sort_byDate: "sorted_wrt (\<lambda>x y. fst y \<le> fst x) (sort_with byDateDesc xs)"
proof (induction xs)
  case Nil
  show ?case by (simp add: sort_with_def)
next
  case (Cons x xs)
  then show ?case
    using sorted_insert_byDate [of "sort_with byDateDesc xs" x] by (simp add: sort_with_def)
qed

lemma sorted_take_drop:
  assumes "sorted_wrt P xs" and "x \<in> set (take n xs)" and "y \<in> set (drop n xs)"
  shows "P x y"
proof -
  have "sorted_wrt P (take n xs @ drop n xs)" using assms(1) by simp
  then show ?thesis using assms(2,3) unfolding sorted_wrt_append by blast
qed

lemma strict_desc:
  assumes "distinct (map fst xs)" and "sorted_wrt (\<lambda>x y. fst y \<le> (fst x :: int)) xs"
  shows "sorted_wrt (\<lambda>x y. fst y < fst x) xs"
  using assms
proof (induction xs)
  case Nil
  show ?case by simp
next
  case (Cons x xs)
  have "fst y < fst x" if "y \<in> set xs" for y
  proof -
    from that Cons.prems(2) have "fst y \<le> fst x" by simp
    moreover from that Cons.prems(1) have "fst y \<noteq> fst x" by (auto simp: image_iff)
    ultimately show ?thesis by simp
  qed
  with Cons show ?case by simp
qed

lemma history_strict:
  assumes "distinct (map fst (workouts a))"
  shows "sorted_wrt (\<lambda>x y. fst y < fst x) (historyWorkouts a)"
proof -
  have "mset (map fst (historyWorkouts a)) = mset (map fst (workouts a))"
    by (simp add: historyWorkouts_def mset_sort_with)
  with assms have "distinct (map fst (historyWorkouts a))"
    by (metis mset_eq_imp_distinct_iff)
  then show ?thesis
    by (rule strict_desc) (simp add: historyWorkouts_def sorted_sort_byDate)
qed

lemma history_keys:
  assumes "keys_ok a" and "x \<in> set (historyWorkouts a)"
  shows "startedAt (snd x) = fst x"
proof -
  have "set (historyWorkouts a) = set (workouts a)"
    using mset_sort_with [of byDateDesc "workouts a"] by (metis historyWorkouts_def mset_eq_setD)
  with assms show ?thesis by (simp add: keys_ok_def)
qed

text \<open>
  C7. Let every workout of the profile be stored under its start time, the keys being
  distinct. The history lists all workouts by start time, latest first. Its first \<open>n\<close>
  entries are \<open>n\<close> workouts of the profile (all of them when there are fewer), by
  start time, latest first, and each started later than every workout left out. When
  the years have four digits the same holds of the texts of the keys in the
  lexicographic order of strings. The dashboard shows the first five of the history:
  five workouts when the profile has seven.
\<close>

theorem recent_workouts_most_recent:
  assumes "keys_ok a" and "distinct (map fst (workouts a))"
  shows "recentWorkouts a = take 5 (historyWorkouts a) \<and>
    mset (historyWorkouts a) = mset (workouts a) \<and>
    length (take n (historyWorkouts a)) = min n (length (workouts a)) \<and>
    sorted_wrt (\<lambda>x y. startedAt (snd y) < startedAt (snd x)) (take n (historyWorkouts a)) \<and>
    (\<forall>x \<in> set (take n (historyWorkouts a)). \<forall>y \<in> set (drop n (historyWorkouts a)).
        startedAt (snd y) < startedAt (snd x)) \<and>
    ((\<forall>kw \<in> set (workouts a). 0 \<le> YearFromTime (fst kw) \<and> YearFromTime (fst kw) \<le> 9999) \<longrightarrow>
       sorted_wrt (\<lambda>x y. toISOString (fst y) < toISOString (fst x)) (take n (historyWorkouts a)) \<and>
       (\<forall>x \<in> set (take n (historyWorkouts a)). \<forall>y \<in> set (drop n (historyWorkouts a)).
          toISOString (fst y) < toISOString (fst x))) \<and>
    (length (workouts a) = 7 \<longrightarrow> length (recentWorkouts a) = 5)"
proof -
  let ?h = "historyWorkouts a"
  have m: "mset ?h = mset (workouts a)" by (simp add: historyWorkouts_def mset_sort_with)
  then have len: "length ?h = length (workouts a)" by (metis size_mset)
  from m have sets: "set ?h = set (workouts a)" by (rule mset_eq_setD)
  have s: "sorted_wrt (\<lambda>x y. fst y < fst x) ?h" using assms(2) by (rule history_strict)
  have k: "startedAt (snd x) = fst x" if "x \<in> set ?h" for x
    using assms(1) that by (rule history_keys)
  have s': "sorted_wrt (\<lambda>x y. startedAt (snd y) < startedAt (snd x)) ?h"
    using s k by (simp add: sorted_wrt_iff_nth_less)
  have t: "sorted_wrt (\<lambda>x y. startedAt (snd y) < startedAt (snd x)) (take n ?h)"
    using s' by (rule sorted_wrt_take)
  have d: "\<forall>x \<in> set (take n ?h). \<forall>y \<in> set (drop n ?h). startedAt (snd y) < startedAt (snd x)"
    using sorted_take_drop [OF s'] by blast
  have texts: "sorted_wrt (\<lambda>x y. toISOString (fst y) < toISOString (fst x)) (take n ?h) \<and>
      (\<forall>x \<in> set (take n ?h). \<forall>y \<in> set (drop n ?h). toISOString (fst y) < toISOString (fst x))"
    if y: "\<forall>kw \<in> set (workouts a). 0 \<le> YearFromTime (fst kw) \<and> YearFromTime (fst kw) \<le> 9999"
  proof -
    have "toISOString (fst v) < toISOString (fst u)" if "u \<in> set ?h" "v \<in> set ?h" "fst v < fst u" for u v
      using that y sets by (intro toISOString_strict_mono) auto
    with s have st: "sorted_wrt (\<lambda>x y. toISOString (fst y) < toISOString (fst x)) ?h"
      by (simp add: sorted_wrt_iff_nth_less)
    then have "sorted_wrt (\<lambda>x y. toISOString (fst y) < toISOString (fst x)) (take n ?h)"
      by (rule sorted_wrt_take)
    moreover have "\<forall>x \<in> set (take n ?h). \<forall>y \<in> set (drop n ?h). toISOString (fst y) < toISOString (fst x)"
      using sorted_take_drop [OF st] by blast
    ultimately show ?thesis by simp
  qed
  show ?thesis using m len t d texts by (simp add: recentWorkouts_def historyWorkouts_def)
qed

theorem recent_workouts_most_recent_witness:
  "recentWorkouts
     \<lparr>exercises = [],
        workouts =
          [(1757829600000, \<lparr>startedAt = 1757829600000, endedAt = Some 1757833200000, notes_of = [],
                       unit_of = kg, sets = []\<rparr>),
           (1757917800000, \<lparr>startedAt = 1757917800000, endedAt = Some 1757921400000, notes_of = [],
                       unit_of = kg, sets = []\<rparr>),
           (1757527200000, \<lparr>startedAt = 1757527200000, endedAt = Some 1757530800000, notes_of = [],
                       unit_of = kg, sets = []\<rparr>),
           (1758093300000, \<lparr>startedAt = 1758093300000, endedAt = Some 1758096900000, notes_of = [],
                       unit_of = kg, sets = []\<rparr>),
           (1757656800000, \<lparr>startedAt = 1757656800000, endedAt = Some 1757660400000, notes_of = [],
                       unit_of = kg, sets = []\<rparr>),
           (1758261600000, \<lparr>startedAt = 1758261600000, endedAt = Some 1758265200000, notes_of = [],
                       unit_of = kg, sets = []\<rparr>),
           (1758348000000, \<lparr>startedAt = 1758348000000, endedAt = Some 1758351600000, notes_of = [],
                       unit_of = kg, sets = []\<rparr>)],
        currentSession = None\<rparr>
   = [(1758348000000, \<lparr>startedAt = 1758348000000, endedAt = Some 1758351600000, notes_of = [],
                  unit_of = kg, sets = []\<rparr>),
      (1758261600000, \<lparr>startedAt = 1758261600000, endedAt = Some 1758265200000, notes_of = [],
                  unit_of = kg, sets = []\<rparr>),
      (1758093300000, \<lparr>startedAt = 1758093300000, endedAt = Some 1758096900000, notes_of = [],
                  unit_of = kg, sets = []\<rparr>),
      (1757917800000, \<lparr>startedAt = 1757917800000, endedAt = Some 1757921400000, notes_of = [],
                  unit_of = kg, sets = []\<rparr>),
      (1757829600000, \<lparr>startedAt = 1757829600000, endedAt = Some 1757833200000, notes_of = [],
                  unit_of = kg, sets = []\<rparr>)] \<and>
   map (\<lambda>kw. toISOString (fst kw)) (recentWorkouts
     \<lparr>exercises = [],
        workouts =
          [(1757829600000, \<lparr>startedAt = 1757829600000, endedAt = Some 1757833200000, notes_of = [],
                       unit_of = kg, sets = []\<rparr>),
           (1757917800000, \<lparr>startedAt = 1757917800000, endedAt = Some 1757921400000, notes_of = [],
                       unit_of = kg, sets = []\<rparr>),
           (1757527200000, \<lparr>startedAt = 1757527200000, endedAt = Some 1757530800000, notes_of = [],
                       unit_of = kg, sets = []\<rparr>),
           (1758093300000, \<lparr>startedAt = 1758093300000, endedAt = Some 1758096900000, notes_of = [],
                       unit_of = kg, sets = []\<rparr>),
           (1757656800000, \<lparr>startedAt = 1757656800000, endedAt = Some 1757660400000, notes_of = [],
                       unit_of = kg, sets = []\<rparr>),
           (1758261600000, \<lparr>startedAt = 1758261600000, endedAt = Some 1758265200000, notes_of = [],
                       unit_of = kg, sets = []\<rparr>),
           (1758348000000, \<lparr>startedAt = 1758348000000, endedAt = Some 1758351600000, notes_of = [],
                       unit_of = kg, sets = []\<rparr>)],
        currentSession = None\<rparr>)
   = [''2025-09-20T06:00:00.000Z'',
      ''2025-09-19T06:00:00.000Z'',
      ''2025-09-17T07:15:00.000Z'',
      ''2025-09-15T06:30:00.000Z'',
      ''2025-09-14T06:00:00.000Z'']"
proof -
  let ?a = "\<lparr>exercises = [],
        workouts =
          [(1757829600000, \<lparr>startedAt = 1757829600000, endedAt = Some 1757833200000, notes_of = [],
                       unit_of = kg, sets = []\<rparr>),
           (1757917800000, \<lparr>startedAt = 1757917800000, endedAt = Some 1757921400000, notes_of = [],
                       unit_of = kg, sets = []\<rparr>),
           (1757527200000, \<lparr>startedAt = 1757527200000, endedAt = Some 1757530800000, notes_of = [],
                       unit_of = kg, sets = []\<rparr>),
           (1758093300000, \<lparr>startedAt = 1758093300000, endedAt = Some 1758096900000, notes_of = [],
                       unit_of = kg, sets = []\<rparr>),
           (1757656800000, \<lparr>startedAt = 1757656800000, endedAt = Some 1757660400000, notes_of = [],
                       unit_of = kg, sets = []\<rparr>),
           (1758261600000, \<lparr>startedAt = 1758261600000, endedAt = Some 1758265200000, notes_of = [],
                       unit_of = kg, sets = []\<rparr>),
           (1758348000000, \<lparr>startedAt = 1758348000000, endedAt = Some 1758351600000, notes_of = [],
                       unit_of = kg, sets = []\<rparr>)],
        currentSession = None\<rparr>"
  have k: "keys_ok ?a" by (simp add: keys_ok_def)
  have d: "distinct (map fst (workouts ?a))" by simp
  have y: "\<forall>kw \<in> set (workouts ?a). 0 \<le> YearFromTime (fst kw) \<and> YearFromTime (fst kw) \<le> 9999"
    by code_simp
  have h: "take 5 (historyWorkouts ?a)
    = [(1758348000000, \<lparr>startedAt = 1758348000000, endedAt = Some 1758351600000, notes_of = [],
                  unit_of = kg, sets = []\<rparr>),
      (1758261600000, \<lparr>startedAt = 1758261600000, endedAt = Some 1758265200000, notes_of = [],
                  unit_of = kg, sets = []\<rparr>),
      (1758093300000, \<lparr>startedAt = 1758093300000, endedAt = Some 1758096900000, notes_of = [],
                  unit_of = kg, sets = []\<rparr>),
      (1757917800000, \<lparr>startedAt = 1757917800000, endedAt = Some 1757921400000, notes_of = [],
                  unit_of = kg, sets = []\<rparr>),
      (1757829600000, \<lparr>startedAt = 1757829600000, endedAt = Some 1757833200000, notes_of = [],
                  unit_of = kg, sets = []\<rparr>)]"
    by code_simp
  have t: "map toISOString [1758348000000, 1758261600000, 1758093300000, 1757917800000,
                            1757829600000]
    = [''2025-09-20T06:00:00.000Z'', ''2025-09-19T06:00:00.000Z'',
       ''2025-09-17T07:15:00.000Z'', ''2025-09-15T06:30:00.000Z'',
       ''2025-09-14T06:00:00.000Z'']"
    by code_simp
  note c7 = recent_workouts_most_recent [OF k d, of 5]
  from c7 have r: "recentWorkouts ?a = take 5 (historyWorkouts ?a)"
    by (rule conjunct1)
  note texts = c7 [THEN conjunct2, THEN conjunct2, THEN conjunct2, THEN conjunct2,
      THEN conjunct2, THEN conjunct1, THEN mp, OF y]
  from texts have "sorted_wrt (\<lambda>x y. toISOString (fst y) < toISOString (fst x))
      (take 5 (historyWorkouts ?a))"
    by (rule conjunct1)
  from r h have rh: "recentWorkouts ?a
    = [(1758348000000, \<lparr>startedAt = 1758348000000, endedAt = Some 1758351600000, notes_of = [],
                  unit_of = kg, sets = []\<rparr>),
      (1758261600000, \<lparr>startedAt = 1758261600000, endedAt = Some 1758265200000, notes_of = [],
                  unit_of = kg, sets = []\<rparr>),
      (1758093300000, \<lparr>startedAt = 1758093300000, endedAt = Some 1758096900000, notes_of = [],
                  unit_of = kg, sets = []\<rparr>),
      (1757917800000, \<lparr>startedAt = 1757917800000, endedAt = Some 1757921400000, notes_of = [],
                  unit_of = kg, sets = []\<rparr>),
      (1757829600000, \<lparr>startedAt = 1757829600000, endedAt = Some 1757833200000, notes_of = [],
                  unit_of = kg, sets = []\<rparr>)]"
    by (rule trans)
  show ?thesis unfolding rh using t by simp
qed

section \<open>Loading the stored data\<close>

text \<open>
  C8, as the code has it. \<open>loadData\<close> returns, with an active profile, when nothing
  is stored, when the stored text is empty or is not JSON, when it is the JSON of a
  falsy value, and when it is the JSON of an object whose \<open>profiles\<close> is an object.
  In the first four cases the data are \<open>{ profiles: {} }\<close> with the active profile
  \<open>{ exercises: {}, workouts: {} }\<close> added; in the last the stored data are kept, and
  the empty profile is added when the active profile is missing.
\<close>

theorem loadData_recovers:
  "loadData NoItem JNull
     = Returned (JObj [(''profiles'', JObj [(''me'', JObj [(''exercises'', JObj []),
                                                            (''workouts'', JObj [])])])]) \<and>
   loadData (Item [] r) JNull
     = Returned (JObj [(''profiles'', JObj [(''me'', JObj [(''exercises'', JObj []),
                                                            (''workouts'', JObj [])])])]) \<and>
   loadData (Item json SyntaxError) JNull
     = Returned (JObj [(''profiles'', JObj [(''me'', JObj [(''exercises'', JObj []),
                                                            (''workouts'', JObj [])])])]) \<and>
   (\<not> ToBoolean (Some v) \<longrightarrow>
      loadData (Item json (Parsed v)) JNull
        = Returned (JObj [(''profiles'', JObj [(''me'', JObj [(''exercises'', JObj []),
                                                               (''workouts'', JObj [])])])])) \<and>
   (json \<noteq> [] \<and> map_of obj ''profiles'' = Some (JObj ps) \<longrightarrow>
      (\<exists>d. loadData (Item json (Parsed (JObj obj))) data0 = Returned d \<and>
           (ToBoolean (map_of ps ''me'') \<longrightarrow> d = JObj obj) \<and>
           (\<not> ToBoolean (map_of ps ''me'') \<longrightarrow>
              d = JObj (AList.update ''profiles''
                          (JObj (AList.update ''me'' (JObj [(''exercises'', JObj []),
                                                            (''workouts'', JObj [])]) ps)) obj) \<and>
              activeProfile d = Val (Some (JObj [(''exercises'', JObj []),
                                                 (''workouts'', JObj [])])))))"
  by (auto simp: loadData_def emptyData_def emptyProfile_def profileId_def activeProfile_def
      update_conv' Let_def split: parse_result.splits)

theorem loadData_recovers_witness:
  \<open>loadData (Item ''not json'' SyntaxError) JNull
     = Returned (JObj [(''profiles'', JObj [(''me'', JObj [(''exercises'', JObj []),
                                                            (''workouts'', JObj [])])])]) \<and>
   loadData (Item ''null'' (Parsed JNull)) JNull
     = Returned (JObj [(''profiles'', JObj [(''me'', JObj [(''exercises'', JObj []),
                                                            (''workouts'', JObj [])])])]) \<and>
   loadData (Item ''{"profiles":{"me":{"exercises":{"squat":{}},"workouts":{}}}}''
       (Parsed (JObj [(''profiles'', JObj [(''me'', JObj [(''exercises'', JObj [(''squat'', JObj [])]),
                                                          (''workouts'', JObj [])])])]))) JNull
     = Returned (JObj [(''profiles'', JObj [(''me'', JObj [(''exercises'', JObj [(''squat'', JObj [])]),
                                                            (''workouts'', JObj [])])])]) \<and>
   loadData (Item ''{"profiles":{"you":{}}}''
       (Parsed (JObj [(''profiles'', JObj [(''you'', JObj [])])]))) JNull
     = Returned (JObj [(''profiles'', JObj [(''you'', JObj []),
                                            (''me'', JObj [(''exercises'', JObj []),
                                                           (''workouts'', JObj [])])])])\<close>
proof -
  let ?me = \<open>[(''me'', JObj [(''exercises'', JObj [(''squat'', JObj [])]), (''workouts'', JObj [])])]\<close>
  let ?t1 = \<open>''{"profiles":{"me":{"exercises":{"squat":{}},"workouts":{}}}}''\<close>
  let ?t2 = \<open>''{"profiles":{"you":{}}}''\<close>
  have f: \<open>\<not> ToBoolean (Some JNull)\<close> by simp
  have a: \<open>?t1 \<noteq> [] \<and> map_of [(''profiles'', JObj ?me)] ''profiles'' = Some (JObj ?me)\<close>
    by simp
  have b: \<open>?t2 \<noteq> [] \<and>
    map_of [(''profiles'', JObj [(''you'', JObj [])])] ''profiles'' = Some (JObj [(''you'', JObj [])])\<close>
    by simp
  from loadData_recovers [where json = \<open>''not json''\<close>]
    loadData_recovers [where json = \<open>''null''\<close> and v = JNull]
    loadData_recovers [where json = ?t1 and obj = \<open>[(''profiles'', JObj ?me)]\<close> and ps = ?me
      and ?data0.0 = JNull]
    loadData_recovers [where json = ?t2 and obj = \<open>[(''profiles'', JObj [(''you'', JObj [])])]\<close>
      and ps = \<open>[(''you'', JObj [])]\<close> and ?data0.0 = JNull]
  show ?thesis using f a b by auto
qed

theorem loadData_no_profiles_counterexample:
  "loadData (Item ''{}'' (Parsed (JObj []))) JNull = Threw (JObj [])"
  by (simp add: loadData_def)

section \<open>Importing a file\<close>




end
